theory Spec2Isabelle
  imports Main "HOL-Library.Char_ord" "HOL-Library.List_Lexorder"
begin

unbundle bit_operations_syntax

section \<open>Data model\<close>

text \<open>
  The transfer coordination engine of \<^verbatim>\<open>src/src/etdc_etdserver.cc\<close>. Every
  \<^verbatim>\<open>ETDCASSERT\<close> of the source raises an exception; the model returns the failed
  assertion as a value, one constructor per assertion, named after its message.
\<close>

datatype error =
    AlreadyBusy            \<comment> \<open>"this server is already busy"\<close>
  | InvalidOpenMode        \<comment> \<open>"invalid open mode for requestFileWrite"\<close>
  | PathInUse              \<comment> \<open>"the path is already in use"\<close>
  | OpenFailed             \<comment> \<open>the \<^verbatim>\<open>etdc_file\<close> constructor throws\<close>
  | InsertFailed           \<comment> \<open>"Failed to insert new entry"\<close>
  | SeekFailed             \<comment> \<open>"Cannot seek to position"\<close>
  | NotOurUUID             \<comment> \<open>"Cannot remove someone else's UUID!", "is not our UUID"\<close>
  | NotInitialized         \<comment> \<open>"This server was not initialized yet"\<close>
  | NotForReading          \<comment> \<open>"initialized, but not for reading a file"\<close>
  | NotForWriting          \<comment> \<open>"initialized, but not for writing to file"\<close>
  | ConnectFailed          \<comment> \<open>"Failed to connect to any of the data servers"\<close>
  | ShortIO                \<comment> \<open>an \<^verbatim>\<open>ETDCASSERTX(read/write(..., n)==n)\<close> fails\<close>
  | ReadFailed             \<comment> \<open>"Failed to read data from remote end"\<close>
  | ReadError              \<comment> \<open>"Failed to read bytes from client"\<close>
  | NoBytes                \<comment> \<open>"No bytes read from client and no more bytes still left in buffer"\<close>
  | WrongNumberOfResponses \<comment> \<open>"The client sent wrong number of responses"\<close>
  | NonConforming          \<comment> \<open>"The client sent a non-conforming response"\<close>
  | Unrecognized           \<comment> \<open>"the server sent a reply that we did not recognize"\<close>
  | DuplicateField         \<comment> \<open>"Server already sent a UUID" / "a file position"\<close>
  | UnprocessedLines       \<comment> \<open>"there are unprocessed lines of input left"\<close>
  | UnconsumedBytes        \<comment> \<open>"there are ... unconsumed server bytes left in the input"\<close>
  | MissingFields          \<comment> \<open>"the server did NOT send all required fields"\<close>
  | RemoteError string     \<comment> \<open>an \<^verbatim>\<open>ERR <reason>\<close> reply turned into an exception\<close>
  | NoUUIDSent             \<comment> \<open>"No UUID was sent"\<close>
  | NoAmountSent           \<comment> \<open>"No amount was sent"\<close>
  | BadPushValue           \<comment> \<open>"push keyword may only take one specific value"\<close>
  | NoTransfer             \<comment> \<open>"No transfer associated with the UUID"\<close>
  | IncompatibleMode       \<comment> \<open>"open mode ... is not compatible with the current data request"\<close>
  | NotADesignator         \<comment> \<open>"is not a valid data address designator"\<close>
  | HostTooLong            \<comment> \<open>"Host names can not be longer than 255 characters"\<close>
  | BadPort                \<comment> \<open>the port string does not convert\<close>
  | InvalidArgument        \<comment> \<open>\<^verbatim>\<open>std::invalid_argument\<close> of \<^verbatim>\<open>std::stol\<close>\<close>
  | OutOfRange             \<comment> \<open>\<^verbatim>\<open>std::out_of_range\<close> of \<^verbatim>\<open>std::stol\<close>\<close>

datatype openmode_type = Read | New | OverWrite | Resume | SkipExisting

type_synonym uuid_type = string

text \<open>\<^verbatim>\<open>sockname_type\<close>: protocol, host, port.\<close>

type_synonym sockname_type = "string \<times> string \<times> nat"

subsection \<open>The transport facade\<close>

text \<open>
  Modelled from the spec: the class \<^verbatim>\<open>etdc_fd\<close> (declared in \<^verbatim>\<open>etdc_fd.h\<close>, which
  is not among the sources) is the transport facade of section 6: \<^verbatim>\<open>read(buf, n)\<close> and
  \<^verbatim>\<open>write(buf, n)\<close> return the count actually transferred, \<^verbatim>\<open>-1\<close> on failure, and
  files have \<^verbatim>\<open>lseek(offset, whence)\<close>. A descriptor is the bytes it can still deliver
  (\<open>contents\<close> from \<open>offset\<close> on: the file's bytes, or the bytes the peer sends),
  whether it can seek (\<open>seekable\<close>) and the largest offset its file system lets it seek
  to (\<open>max_offset\<close>), the bytes it has accepted (\<open>written\<close>), and two scripts that
  bound what the successive
  \<^verbatim>\<open>read\<close> and \<^verbatim>\<open>write\<close> calls transfer: a negative entry makes the call fail
  with \<^verbatim>\<open>-1\<close>, an entry \<open>c \<ge> 0\<close> lets it move at most \<open>c\<close> bytes, and a call
  after the script's end moves all it can. \<open>calls\<close> records every call made.
\<close>

datatype io_call =
    RD nat int       \<comment> \<open>\<^verbatim>\<open>read\<close>: count requested, count returned\<close>
  | WR string int    \<comment> \<open>\<^verbatim>\<open>write\<close>: bytes handed over, count returned\<close>

record etdc_fd =
  contents :: string
  offset :: nat
  seekable :: bool
  max_offset :: nat
  rd_script :: "int list"
  written :: string
  wr_script :: "int list"
  calls :: "io_call list"
  closed :: bool

datatype whence = SEEK_SET | SEEK_END

text \<open>
  Modelled from the spec: \<^verbatim>\<open>lseek(offset, whence)\<close> returns the new offset, or
  \<^verbatim>\<open>-1\<close> when the seek fails: the descriptor cannot seek, the target is negative,
  or the target lies beyond both the end of the file and \<open>max_offset\<close>, the largest
  offset of the file system. A seek to the end of the file itself is within the file
  system's range.
\<close>

definition fd_lseek :: "etdc_fd \<Rightarrow> int \<Rightarrow> whence \<Rightarrow> int \<times> etdc_fd" where
  "fd_lseek fd off wh =
     (let tgt = (case wh of SEEK_SET \<Rightarrow> off | SEEK_END \<Rightarrow> int (length (contents fd)) + off)
      in if seekable fd \<and> 0 \<le> tgt
            \<and> tgt \<le> int (max (length (contents fd)) (max_offset fd))
         then (tgt, fd\<lparr>offset := nat tgt\<rparr>) else (- 1, fd))"

text \<open>
  Modelled from the spec: \<^verbatim>\<open>read(buf, n)\<close> returns the count actually transferred.
  \<open>fd_read fd n\<close> gives that count, the bytes put into the buffer, and the descriptor
  after the call.
\<close>

definition fd_read :: "etdc_fd \<Rightarrow> nat \<Rightarrow> int \<times> string \<times> etdc_fd" where
  "fd_read fd n =
     (let avail = drop (offset fd) (contents fd);
          cap = (case rd_script fd of [] \<Rightarrow> int n | c # _ \<Rightarrow> c);
          fd1 = fd\<lparr>rd_script := tl (rd_script fd)\<rparr>
      in if cap < 0 then (- 1, [], fd1\<lparr>calls := calls fd @ [RD n (- 1)]\<rparr>)
         else let m = min (nat cap) (min n (length avail))
              in (int m, take m avail,
                  fd1\<lparr>offset := offset fd + m, calls := calls fd @ [RD n (int m)]\<rparr>))"

text \<open>
  Modelled from the spec: \<^verbatim>\<open>write(buf, n)\<close> returns the count actually transferred.
  \<open>fd_write fd bs\<close> hands the bytes \<open>bs\<close> over and gives the count accepted and the
  descriptor after the call.
\<close>

definition fd_write :: "etdc_fd \<Rightarrow> string \<Rightarrow> int \<times> etdc_fd" where
  "fd_write fd bs =
     (let cap = (case wr_script fd of [] \<Rightarrow> int (length bs) | c # _ \<Rightarrow> c);
          fd1 = fd\<lparr>wr_script := tl (wr_script fd)\<rparr>
      in if cap < 0 then (- 1, fd1\<lparr>calls := calls fd @ [WR bs (- 1)]\<rparr>)
         else let m = min (nat cap) (length bs)
              in (int m, fd1\<lparr>written := written fd @ take m bs,
                                calls := calls fd @ [WR bs (int m)]\<rparr>))"

text \<open>Modelled from the spec: \<^verbatim>\<open>close()\<close>.\<close>

definition fd_close :: "etdc_fd \<Rightarrow> etdc_fd" where
  "fd_close fd = fd\<lparr>closed := True\<rparr>"

subsection \<open>The transfer registry\<close>

text \<open>
  \<^verbatim>\<open>transferprops_type\<close>: the descriptor, the normalized path, the open mode and the
  record's mutex; \<open>lock\<close> is \<open>True\<close> while some thread holds it.
\<close>

record transferprops_type =
  fd :: etdc_fd
  path :: string
  openMode :: openmode_type
  lock :: bool

text \<open>
  \<^verbatim>\<open>transfermap_type\<close> is a \<^verbatim>\<open>std::map\<close>: an association list in ascending key
  order, so that \<^verbatim>\<open>std::find_if\<close> meets the entries in the order of the source.
\<close>

type_synonym transfermap_type = "(uuid_type \<times> transferprops_type) list"

record etd_state =
  transfers :: transfermap_type
  dataaddrs :: "sockname_type list"

definition map_find :: "transfermap_type \<Rightarrow> uuid_type \<Rightarrow> transferprops_type option" where
  "map_find m u = map_of m u"

fun map_insert :: "uuid_type \<Rightarrow> transferprops_type \<Rightarrow> transfermap_type \<Rightarrow> transfermap_type" where
  "map_insert u t [] = [(u, t)]"
| "map_insert u t ((k, v) # m) = (if u < k then (u, t) # (k, v) # m else (k, v) # map_insert u t m)"

text \<open>\<^verbatim>\<open>emplace\<close> inserts only when the key is absent; the flag is \<^verbatim>\<open>.second\<close>.\<close>

definition map_emplace ::
  "uuid_type \<Rightarrow> transferprops_type \<Rightarrow> transfermap_type \<Rightarrow> transfermap_type \<times> bool" where
  "map_emplace u t m = (if map_find m u = None then (map_insert u t m, True) else (m, False))"

definition map_erase :: "uuid_type \<Rightarrow> transfermap_type \<Rightarrow> transfermap_type" where
  "map_erase u m = filter (\<lambda>kv. fst kv \<noteq> u) m"

definition map_update :: "uuid_type \<Rightarrow> transferprops_type \<Rightarrow> transfermap_type \<Rightarrow> transfermap_type" where
  "map_update u t m = map (\<lambda>kv. if fst kv = u then (u, t) else kv) m"

text \<open>\<^verbatim>\<open>std::find_if\<close> over the map with the predicate "the record's path is nPath".\<close>

definition find_path :: "transfermap_type \<Rightarrow> string \<Rightarrow> (uuid_type \<times> transferprops_type) option" where
  "find_path m nPath = find (\<lambda>kv. path (snd kv) = nPath) m"

subsection \<open>The platform\<close>

text \<open>
  What the server calls and the sources do not hold: \<^verbatim>\<open>detail::normalize_path\<close>, the
  constructor \<^verbatim>\<open>etdc_file(path, omode, perm)\<close> (\<open>None\<close>: it throws), \<^verbatim>\<open>mk_client\<close>
  (\<open>None\<close>: it throws), the numeric value of each \<^verbatim>\<open>openmode_type\<close> enumerator and
  \<^verbatim>\<open>O_LARGEFILE\<close> (\<open>0\<close> where the system has none).
\<close>

record platform =
  normalize_path :: "string \<Rightarrow> string"
  etdc_file :: "string \<Rightarrow> int \<Rightarrow> int option \<Rightarrow> etdc_fd option"
  mk_client :: "sockname_type \<Rightarrow> etdc_fd option"
  openmode_int :: "openmode_type \<Rightarrow> int"
  O_LARGEFILE :: int

type_synonym result_type = "uuid_type \<times> int"

section \<open>ETDServer\<close>

text \<open>
  Every operation takes the server's own UUID (\<^verbatim>\<open>__m_uuid\<close>) and the shared state and
  returns its result, or the failed assertion, with the shared state after the call.
  \<^verbatim>\<open>off_t\<close> values are \<open>int\<close>: the only arithmetic on them is \<open>sz - alreadyhave\<close>
  after a successful seek (both in \<open>0 .. 2^63 - 1\<close>, or \<open>sz = -1\<close>) and the countdown of
  \<open>todo\<close>, neither of which can leave the range of \<^verbatim>\<open>off_t\<close>.
\<close>

definition allowedModes :: "openmode_type set" where
  "allowedModes = {New, OverWrite, Resume, SkipExisting}"

definition requestFileWrite ::
  "platform \<Rightarrow> uuid_type \<Rightarrow> etd_state \<Rightarrow> string \<Rightarrow> openmode_type
     \<Rightarrow> (error + result_type) \<times> etd_state" where
  "requestFileWrite pf m_uuid st p mode =
     (if map_find (transfers st) m_uuid \<noteq> None then (Inl AlreadyBusy, st)
      else let nPath = normalize_path pf p in
        if mode \<notin> allowedModes then (Inl InvalidOpenMode, st)
        else if find_path (transfers st) nPath \<noteq> None then (Inl PathInUse, st)
        else let omode0 = openmode_int pf mode;
                 omode1 = (if mode = SkipExisting then NOT omode0 else omode0);
                 omode = omode1 OR O_LARGEFILE pf
          in case etdc_file pf nPath omode (Some 420) of
               None \<Rightarrow> (Inl OpenFailed, st)
             | Some f \<Rightarrow>
                 let (fsize, f1) = fd_lseek f 0 SEEK_END;
                     (m1, ok) = map_emplace m_uuid
                        \<lparr>fd = f1, path = nPath, openMode = mode, lock = False\<rparr> (transfers st)
                 in if \<not> ok then (Inl InsertFailed, st)
                    else (Inr (m_uuid, fsize), st\<lparr>transfers := m1\<rparr>))"

definition requestFileRead ::
  "platform \<Rightarrow> uuid_type \<Rightarrow> etd_state \<Rightarrow> string \<Rightarrow> int
     \<Rightarrow> (error + result_type) \<times> etd_state" where
  "requestFileRead pf m_uuid st p alreadyhave =
     (if map_find (transfers st) m_uuid \<noteq> None then (Inl AlreadyBusy, st)
      else let nPath = normalize_path pf p in
        if \<not> (case find_path (transfers st) nPath of
                  None \<Rightarrow> True | Some kv \<Rightarrow> openMode (snd kv) = Read)
        then (Inl PathInUse, st)
        else let omode = openmode_int pf Read OR O_LARGEFILE pf
          in case etdc_file pf nPath omode None of
               None \<Rightarrow> (Inl OpenFailed, st)
             | Some f \<Rightarrow>
                 let (sz, f1) = fd_lseek f 0 SEEK_END;
                     (r, f2) = fd_lseek f1 alreadyhave SEEK_SET
                 in if r = - 1 then (Inl SeekFailed, st)
                    else let (m1, ok) = map_emplace m_uuid
                                \<lparr>fd = f2, path = nPath, openMode = Read, lock = False\<rparr> (transfers st)
                      in if \<not> ok then (Inl InsertFailed, st)
                         else (Inr (m_uuid, sz - alreadyhave), st\<lparr>transfers := m1\<rparr>))"

definition dataChannelAddr :: "etd_state \<Rightarrow> sockname_type list" where
  "dataChannelAddr st = dataaddrs st"

text \<open>
  \<^verbatim>\<open>removeUUID\<close>: the \<^verbatim>\<open>while(true)\<close> loop looks the record up and tries its lock;
  when the lock is held it sleeps and starts again. No other thread runs in the model, so
  a held lock stays held and the loop does not return: the result is \<open>None\<close>. With
  both locks held the descriptor is closed and the entry, the closed descriptor in it, is
  erased.
\<close>

partial_function (option) removeUUID_loop ::
  "uuid_type \<Rightarrow> etd_state \<Rightarrow> (bool \<times> etd_state) option" where
  "removeUUID_loop m_uuid st =
     (case map_find (transfers st) m_uuid of
        None \<Rightarrow> Some (False, st)
      | Some t \<Rightarrow>
          if lock t then removeUUID_loop m_uuid st
          else Some (True,
                     st\<lparr>transfers :=
                          map_erase m_uuid
                            (map_update m_uuid (t\<lparr>fd := fd_close (fd t)\<rparr>) (transfers st))\<rparr>))"

definition removeUUID ::
  "uuid_type \<Rightarrow> etd_state \<Rightarrow> uuid_type \<Rightarrow> ((error + bool) \<times> etd_state) option" where
  "removeUUID m_uuid st uuid =
     (if uuid \<noteq> m_uuid then Some (Inl NotOurUUID, st)
      else case removeUUID_loop m_uuid st of
             None \<Rightarrow> None
           | Some (b, st1) \<Rightarrow> Some (Inr b, st1))"


subsection \<open>Printing numbers\<close>

text \<open>What \<^verbatim>\<open>operator<<\<close> of a stream prints for an unsigned and for a signed integer.\<close>

definition digit_char :: "nat \<Rightarrow> char" where
  "digit_char d = ''0123456789'' ! d"

function show_nat :: "nat \<Rightarrow> string" where
  "show_nat n = (if n < 10 then [digit_char n] else show_nat (n div 10) @ [digit_char (n mod 10)])"
  by pat_completeness auto
termination
  by (relation "measure id") auto

declare show_nat.simps [simp del]

definition show_int :: "int \<Rightarrow> string" where
  "show_int i = (if i < 0 then CHR ''-'' # show_nat (nat (- i)) else show_nat (nat i))"

subsection \<open>sendFile and getFile\<close>

definition bufSz :: nat where
  "bufSz = 10 * 1024 * 1024"

text \<open>The \<^verbatim>\<open>for(auto addr: dataAddrs)\<close> loop: the first address that connects.\<close>

fun connect_first :: "platform \<Rightarrow> sockname_type list \<Rightarrow> etdc_fd option" where
  "connect_first pf [] = None"
| "connect_first pf (a # as) =
     (case mk_client pf a of Some c \<Rightarrow> Some c | None \<Rightarrow> connect_first pf as)"

text \<open>
  The inner loop of \<^verbatim>\<open>sendFile\<close>: \<open>src\<close> is the transfer's file, \<open>dst\<close> the data
  connection. It returns what is left of \<open>todo\<close>, or the failed assertion, and both
  descriptors as the loop leaves them.
\<close>

function sendFile_loop ::
  "int \<Rightarrow> etdc_fd \<Rightarrow> etdc_fd \<Rightarrow> (error + int) \<times> etdc_fd \<times> etdc_fd" where
  "sendFile_loop todo src dst =
     (if todo > 0 then
        let n = min (nat todo) bufSz;
            (r, buf, src1) = fd_read src n
        in if r \<noteq> int n then (Inl ShortIO, src1, dst)
           else let (w, dst1) = fd_write dst (take n buf)
                in if w \<noteq> int n then (Inl ShortIO, src1, dst1)
                   else sendFile_loop (todo - int n) src1 dst1
      else (Inr todo, src, dst))"
  by pat_completeness auto
termination
  by (relation "measure (\<lambda>(todo, src, dst). nat todo)") (auto simp: bufSz_def)

declare sendFile_loop.simps [simp del]

definition sendFile_header :: "uuid_type \<Rightarrow> int \<Rightarrow> string" where
  "sendFile_header dstUUID todo = ''{ uuid:'' @ dstUUID @ '', sz:'' @ show_int todo @ ''}''"

text \<open>
  The outer \<^verbatim>\<open>while( todo>0 )\<close> loop of \<^verbatim>\<open>sendFile\<close>. A held lock makes the source
  sleep and start again, which in the model does not return (\<open>None\<close>). The record's lock
  is taken and released within the call, so the record keeps \<open>lock = False\<close>. The third
  component of the result is the data connection of the last pass, if one was opened.
\<close>

partial_function (option) sendFile_outer ::
  "platform \<Rightarrow> uuid_type \<Rightarrow> uuid_type \<Rightarrow> sockname_type list \<Rightarrow> int \<Rightarrow> etd_state
     \<Rightarrow> etdc_fd option \<Rightarrow> ((error + bool) \<times> etd_state \<times> etdc_fd option) option" where
  "sendFile_outer pf m_uuid dstUUID dataAddrs todo st conn =
     (if todo > 0 then
        (case map_find (transfers st) m_uuid of
           None \<Rightarrow> Some (Inl NotInitialized, st, conn)
         | Some t \<Rightarrow>
             if lock t then sendFile_outer pf m_uuid dstUUID dataAddrs todo st conn
             else if openMode t \<noteq> Read then Some (Inl NotForReading, st, conn)
             else (case connect_first pf dataAddrs of
                     None \<Rightarrow> Some (Inl ConnectFailed, st, conn)
                   | Some dstFD \<Rightarrow>
                       (case sendFile_loop todo (fd t)
                               (snd (fd_write dstFD (sendFile_header dstUUID todo))) of
                          (Inl e, src1, d2) \<Rightarrow>
                            Some (Inl e,
                                  st\<lparr>transfers := map_update m_uuid (t\<lparr>fd := src1\<rparr>) (transfers st)\<rparr>,
                                  Some d2)
                        | (Inr todo1, src1, d2) \<Rightarrow>
                            sendFile_outer pf m_uuid dstUUID dataAddrs todo1
                              (st\<lparr>transfers := map_update m_uuid (t\<lparr>fd := src1\<rparr>) (transfers st)\<rparr>)
                              (Some (snd (snd (fd_read d2 1)))))))
      else Some (Inr True, st, conn))"

definition sendFile ::
  "platform \<Rightarrow> uuid_type \<Rightarrow> etd_state \<Rightarrow> uuid_type \<Rightarrow> uuid_type \<Rightarrow> int \<Rightarrow> sockname_type list
     \<Rightarrow> ((error + bool) \<times> etd_state \<times> etdc_fd option) option" where
  "sendFile pf m_uuid st srcUUID dstUUID todo dataAddrs =
     (if srcUUID \<noteq> m_uuid then Some (Inl NotOurUUID, st, None)
      else sendFile_outer pf m_uuid dstUUID dataAddrs todo st None)"

text \<open>
  The inner loop of \<^verbatim>\<open>getFile\<close> reads at most \<open>bufSz\<close> bytes and goes round again
  when the read returns nothing or fails, so it need not return.
\<close>

partial_function (option) getFile_loop ::
  "int \<Rightarrow> etdc_fd \<Rightarrow> etdc_fd \<Rightarrow> ((error + int) \<times> etdc_fd \<times> etdc_fd) option" where
  "getFile_loop todo conn file =
     (if todo > 0 then
        (case fd_read conn bufSz of
           (n, buf, c1) \<Rightarrow>
             if n > 0 then
               (case fd_write file (take (nat n) buf) of
                  (w, f1) \<Rightarrow>
                    if w \<noteq> n then Some (Inl ShortIO, c1, f1)
                    else getFile_loop (todo - n) c1 f1)
             else getFile_loop todo c1 file)
      else Some (Inr todo, conn, file))"

definition getFile_header :: "uuid_type \<Rightarrow> int \<Rightarrow> string" where
  "getFile_header srcUUID todo =
     ''{ uuid:'' @ srcUUID @ '', push:1, sz:'' @ show_int todo @ ''}''"

definition allowedWriteModes :: "openmode_type set" where
  "allowedWriteModes = {OverWrite, New, Resume}"

partial_function (option) getFile_outer ::
  "platform \<Rightarrow> uuid_type \<Rightarrow> uuid_type \<Rightarrow> sockname_type list \<Rightarrow> int \<Rightarrow> etd_state
     \<Rightarrow> etdc_fd option \<Rightarrow> ((error + bool) \<times> etd_state \<times> etdc_fd option) option" where
  "getFile_outer pf m_uuid srcUUID dataAddrs todo st conn =
     (if todo > 0 then
        (case map_find (transfers st) m_uuid of
           None \<Rightarrow> Some (Inl NotInitialized, st, conn)
         | Some t \<Rightarrow>
             if lock t then getFile_outer pf m_uuid srcUUID dataAddrs todo st conn
             else if openMode t \<notin> allowedWriteModes then Some (Inl NotForWriting, st, conn)
             else (case connect_first pf dataAddrs of
                     None \<Rightarrow> Some (Inl ConnectFailed, st, conn)
                   | Some dstFD \<Rightarrow>
                       Option.bind
                         (getFile_loop todo
                            (snd (fd_write dstFD (getFile_header srcUUID todo))) (fd t))
                         (\<lambda>res. case res of
                            (Inl e, c2, f1) \<Rightarrow>
                              Some (Inl e,
                                    st\<lparr>transfers := map_update m_uuid (t\<lparr>fd := f1\<rparr>) (transfers st)\<rparr>,
                                    Some c2)
                          | (Inr todo1, c2, f1) \<Rightarrow>
                              getFile_outer pf m_uuid srcUUID dataAddrs todo1
                                (st\<lparr>transfers := map_update m_uuid (t\<lparr>fd := f1\<rparr>) (transfers st)\<rparr>)
                                (Some (snd (fd_write c2 ''y''))))))
      else Some (Inr True, st, conn))"

definition getFile ::
  "platform \<Rightarrow> uuid_type \<Rightarrow> etd_state \<Rightarrow> uuid_type \<Rightarrow> uuid_type \<Rightarrow> int \<Rightarrow> sockname_type list
     \<Rightarrow> ((error + bool) \<times> etd_state \<times> etdc_fd option) option" where
  "getFile pf m_uuid st srcUUID dstUUID todo dataAddrs =
     (if dstUUID \<noteq> m_uuid then Some (Inl NotOurUUID, st, None)
      else getFile_outer pf m_uuid srcUUID dataAddrs todo st None)"


section \<open>ETDDataServer\<close>

text \<open>
  \<^verbatim>\<open>size_t\<close> is the naturals below \<open>2^64\<close>; \<open>size_t_of\<close> is the conversion to it and
  the result of unsigned arithmetic, which wraps.
\<close>

definition size_t_of :: "int \<Rightarrow> nat" where
  "size_t_of i = nat (i mod 2 ^ 64)"

text \<open>
  \<^verbatim>\<open>push_n\<close>: the loop, then the read of the acknowledgement. The parameters
  \<^verbatim>\<open>rdPos\<close>, \<^verbatim>\<open>endPos\<close> and the buffer's old contents are not used by the source.
  With \<open>bufSz = 0\<close> the loop of the source does not end, so the loop is a partial function.
\<close>

partial_function (option) push_n_loop ::
  "nat \<Rightarrow> etdc_fd \<Rightarrow> etdc_fd \<Rightarrow> nat \<Rightarrow> ((error + unit) \<times> etdc_fd \<times> etdc_fd) option" where
  "push_n_loop n src dst bufSize =
     (if n > 0 then
        (case fd_read src (min n bufSize) of
           (r, buf, src1) \<Rightarrow>
             if r \<noteq> int (min n bufSize) then Some (Inl ShortIO, src1, dst)
             else (case fd_write dst (take (min n bufSize) buf) of
                     (w, dst1) \<Rightarrow>
                       if w \<noteq> int (min n bufSize) then Some (Inl ShortIO, src1, dst1)
                       else push_n_loop (n - min n bufSize) src1 dst1 bufSize))
      else Some (Inr (), src, dst))"

definition push_n ::
  "nat \<Rightarrow> etdc_fd \<Rightarrow> etdc_fd \<Rightarrow> nat \<Rightarrow> nat \<Rightarrow> nat \<Rightarrow> string
     \<Rightarrow> ((error + unit) \<times> etdc_fd \<times> etdc_fd) option" where
  "push_n n src dst rdPos endPos bufSize buf =
     Option.bind (push_n_loop n src dst bufSize)
       (\<lambda>res. case res of
          (Inl e, s1, d1) \<Rightarrow> Some (Inl e, s1, d1)
        | (Inr u, s1, d1) \<Rightarrow> Some (Inr (), s1, snd (snd (fd_read d1 1))))"

text \<open>
  \<^verbatim>\<open>pull_n\<close>: \<open>buf\<close> holds the buffer's bytes below \<open>wrEnd\<close>; those from \<open>rdPos\<close> on
  followed the command and are flushed with the first write. All counts are
  \<^verbatim>\<open>size_t\<close>: the subtractions wrap.
\<close>

partial_function (option) pull_n_loop ::
  "nat \<Rightarrow> etdc_fd \<Rightarrow> etdc_fd \<Rightarrow> nat \<Rightarrow> nat \<Rightarrow> nat \<Rightarrow> string
     \<Rightarrow> ((error + unit) \<times> etdc_fd \<times> etdc_fd) option" where
  "pull_n_loop n src dst rdPos wrEnd bufSize buf =
     (if n > 0 then
        (case fd_read src (min (size_t_of (int n + int rdPos - int wrEnd))
                               (size_t_of (int bufSize - int wrEnd))) of
           (aRead, bytes, src1) \<Rightarrow>
             if \<not> aRead \<ge> 0 then Some (Inl ReadError, src1, dst)
             else if \<not> size_t_of (int wrEnd + aRead - int rdPos) > 0
             then Some (Inl NoBytes, src1, dst)
             else (case fd_write dst
                          (take (size_t_of (int wrEnd + aRead - int rdPos))
                                (drop rdPos (take wrEnd buf @ bytes))) of
                     (w, dst1) \<Rightarrow>
                       if w \<noteq> int (size_t_of (int wrEnd + aRead - int rdPos))
                       then Some (Inl ShortIO, src1, dst1)
                       else pull_n_loop
                              (size_t_of (int n - int (size_t_of (int wrEnd + aRead - int rdPos))))
                              src1 dst1 0 0 bufSize (take wrEnd buf @ bytes)))
      else Some (Inr (), src, dst))"

definition pull_n ::
  "nat \<Rightarrow> etdc_fd \<Rightarrow> etdc_fd \<Rightarrow> nat \<Rightarrow> nat \<Rightarrow> nat \<Rightarrow> string
     \<Rightarrow> ((error + unit) \<times> etdc_fd \<times> etdc_fd) option" where
  "pull_n n src dst rdPos endPos bufSize buf =
     Option.bind (pull_n_loop n src dst rdPos endPos bufSize buf)
       (\<lambda>res. case res of
          (Inl e, s1, d1) \<Rightarrow> Some (Inl e, s1, d1)
        | (Inr u, s1, d1) \<Rightarrow> Some (Inr (), snd (fd_write s1 ''y''), d1))"

subsection \<open>Reading numbers\<close>

definition isdigit :: "char \<Rightarrow> bool" where
  "isdigit c = (CHR ''0'' \<le> c \<and> c \<le> CHR ''9'')"

definition isspace :: "char \<Rightarrow> bool" where
  "isspace c = (c \<in> {CHR '' '', CHR 0x09, CHR 0x0A, CHR 0x0B, CHR 0x0C, CHR 0x0D})"

definition digit_val :: "char \<Rightarrow> nat" where
  "digit_val c = of_char c - 48"

definition read_nat :: "string \<Rightarrow> nat" where
  "read_nat ds = foldl (\<lambda>acc c. 10 * acc + digit_val c) 0 ds"

text \<open>
  \<^verbatim>\<open>string2off_t\<close> is \<^verbatim>\<open>std::stol\<close> (\<^verbatim>\<open>std::stoll\<close>) of the C++ library: leading
  white space is skipped, a sign may follow, then decimal digits; what follows the digits
  is ignored. Without a digit it throws \<^verbatim>\<open>std::invalid_argument\<close>, beyond 64 bits
  \<^verbatim>\<open>std::out_of_range\<close>.
\<close>

definition string2off_t :: "string \<Rightarrow> error + int" where
  "string2off_t s =
     (let s1 = dropWhile isspace s;
          neg = (s1 \<noteq> [] \<and> hd s1 = CHR ''-'');
          s2 = (if s1 \<noteq> [] \<and> (hd s1 = CHR ''-'' \<or> hd s1 = CHR ''+'') then tl s1 else s1);
          ds = takeWhile isdigit s2;
          v = (if neg then - int (read_nat ds) else int (read_nat ds))
      in if ds = [] then Inl InvalidArgument
         else if v < - (2 ^ 63) \<or> 2 ^ 63 \<le> v then Inl OutOfRange
         else Inr v)"

subsection \<open>The data-channel handler\<close>

text \<open>
  \<^verbatim>\<open>kvmap_type\<close> is a \<^verbatim>\<open>std::map\<close> ordered by \<^verbatim>\<open>etdc::case_insensitive_lt\<close>:
  \<^verbatim>\<open>find\<close> meets the entry whose key equals the given one up to letter case.
\<close>

definition tolower :: "char \<Rightarrow> char" where
  "tolower c =
     (case map_of (zip ''ABCDEFGHIJKLMNOPQRSTUVWXYZ'' ''abcdefghijklmnopqrstuvwxyz'') c of
        Some l \<Rightarrow> l | None \<Rightarrow> c)"

type_synonym kvmap_type = "(string \<times> string) list"

definition kv_find :: "kvmap_type \<Rightarrow> string \<Rightarrow> string option" where
  "kv_find kvpairs k = map_of (map (\<lambda>kv. (map tolower (fst kv), snd kv)) kvpairs) (map tolower k)"

definition allowedReadModes :: "openmode_type set" where
  "allowedReadModes = {Read}"

definition allowedWriteModes_data :: "openmode_type set" where
  "allowedWriteModes_data = {New, OverWrite, Resume}"

text \<open>
  The \<^verbatim>\<open>while( !xfer_lock.owns_lock() )\<close> loop of \<^verbatim>\<open>ETDDataServer::handle\<close>: find the
  transfer, try its lock (a held lock: sleep and start again), check its open mode.
\<close>

partial_function (option) lock_transfer ::
  "etd_state \<Rightarrow> uuid_type \<Rightarrow> bool \<Rightarrow> (error + transferprops_type) option" where
  "lock_transfer st uuid push =
     (case map_find (transfers st) uuid of
        None \<Rightarrow> Some (Inl NoTransfer)
      | Some t \<Rightarrow>
          if lock t then lock_transfer st uuid push
          else if \<not> (if push then openMode t \<in> allowedReadModes
                     else openMode t \<in> allowedWriteModes_data)
               then Some (Inl IncompatibleMode)
               else Some (Inr t))"

text \<open>
  What \<^verbatim>\<open>ETDDataServer::handle\<close> does with one command once \<^verbatim>\<open>getKeyValuePairs\<close> has
  filled \<open>kvpairs\<close>: \<open>conn\<close> is the data connection, \<open>buf\<close> the \<open>curPos\<close> bytes read so
  far and \<open>rdPos\<close> the end of the command in them. The result carries the shared state
  and the connection after the command.
\<close>

definition handle_command ::
  "kvmap_type \<Rightarrow> etd_state \<Rightarrow> etdc_fd \<Rightarrow> nat \<Rightarrow> nat \<Rightarrow> string
     \<Rightarrow> ((error + unit) \<times> etd_state \<times> etdc_fd) option" where
  "handle_command kvpairs st conn rdPos curPos buf =
     (case kv_find kvpairs ''uuid'' of
        None \<Rightarrow> Some (Inl NoUUIDSent, st, conn)
      | Some uuid \<Rightarrow>
     (case kv_find kvpairs ''sz'' of
        None \<Rightarrow> Some (Inl NoAmountSent, st, conn)
      | Some szs \<Rightarrow>
     if \<not> (kv_find kvpairs ''push'' = None \<or> kv_find kvpairs ''push'' = Some ''1'')
     then Some (Inl BadPushValue, st, conn)
     else (case string2off_t szs of
        Inl e \<Rightarrow> Some (Inl e, st, conn)
      | Inr sz \<Rightarrow>
     Option.bind (lock_transfer st uuid (kv_find kvpairs ''push'' \<noteq> None))
       (\<lambda>locked. case locked of
          Inl e \<Rightarrow> Some (Inl e, st, conn)
        | Inr t \<Rightarrow>
            if kv_find kvpairs ''push'' \<noteq> None
            then Option.bind (push_n (size_t_of sz) (fd t) conn rdPos curPos bufSz buf)
                   (\<lambda>res. case res of (r, f1, c1) \<Rightarrow>
                      Some (r, st\<lparr>transfers := map_update uuid (t\<lparr>fd := f1\<rparr>) (transfers st)\<rparr>, c1))
            else Option.bind (pull_n (size_t_of sz) conn (fd t) rdPos curPos bufSz buf)
                   (\<lambda>res. case res of (r, c1, f1) \<Rightarrow>
                      Some (r, st\<lparr>transfers := map_update uuid (t\<lparr>fd := f1\<rparr>) (transfers st)\<rparr>, c1))))))"

subsection \<open>Reading a trace of calls\<close>

text \<open>
  The bytes a call hands to \<^verbatim>\<open>write\<close>, whether a call is a write that took them all,
  and whether it is a read that returned as many bytes as it was asked for.
\<close>

fun wr_bytes :: "io_call \<Rightarrow> string" where
  "wr_bytes (WR bs r) = bs"
| "wr_bytes (RD n r) = []"

fun complete_write :: "io_call \<Rightarrow> bool" where
  "complete_write (WR bs r) = (r = int (length bs))"
| "complete_write (RD n r) = False"


text \<open>The loops that need not return are run by their defining equations.\<close>

declare removeUUID_loop.simps [code]
  sendFile_outer.simps [code]
  getFile_loop.simps [code]
  getFile_outer.simps [code]
  push_n_loop.simps [code]
  pull_n_loop.simps [code]
  lock_transfer.simps [code]

section \<open>ETDProxy and ETDServerWrapper\<close>

subsection \<open>The regular expressions of the control protocol\<close>

text \<open>
  Each \<^verbatim>\<open>std::regex\<close> of the source is the function that decides its match and returns
  its submatches. \<^verbatim>\<open>rxLine\<close> is \<^verbatim>\<open>([^\r\n]+)[\r\n]+\<close>; \<^verbatim>\<open>getReplies\<close> walks its
  successive matches and returns their first submatches with the end of the last match
  (\<open>0\<close> when there is none). A run of bytes that no newline follows is no match.
\<close>

definition is_nl :: "char \<Rightarrow> bool" where
  "is_nl c = (c = CHR 0x0D \<or> c = CHR 0x0A)"

function getReplies :: "string \<Rightarrow> string list \<times> nat" where
  "getReplies s =
     (let s1 = dropWhile is_nl s;
          line = takeWhile (\<lambda>c. \<not> is_nl c) s1;
          rest = dropWhile (\<lambda>c. \<not> is_nl c) s1
      in if line = [] \<or> rest = [] then ([], 0)
         else (line # fst (getReplies (dropWhile is_nl rest)),
               (length s - length (dropWhile is_nl rest)) + snd (getReplies (dropWhile is_nl rest))))"
  by pat_completeness auto
termination
proof (relation "measure length")
  show "wf (measure length)" by simp
next
  fix s s1 line rest
  assume a: "s1 = dropWhile is_nl s" "line = takeWhile (\<lambda>c. \<not> is_nl c) s1"
    "rest = dropWhile (\<lambda>c. \<not> is_nl c) s1" "\<not> (line = [] \<or> rest = [])"
  have shorter: "takeWhile P xs \<noteq> [] \<Longrightarrow> length (dropWhile P xs) < length xs"
    for P and xs :: string
    by (induction xs) (auto split: if_splits simp: less_Suc_eq_le length_dropWhile_le)
  have "length rest < length s1" using a shorter [of "\<lambda>c. \<not> is_nl c" s1] by simp
  moreover have "length s1 \<le> length s" using a by (simp add: length_dropWhile_le)
  moreover have "length (dropWhile is_nl rest) \<le> length rest" by (rule length_dropWhile_le)
  ultimately show "(dropWhile is_nl rest, s) \<in> measure length" by simp
  then show "(dropWhile is_nl rest, s) \<in> measure length" .
qed

declare getReplies.simps [simp del]

text \<open>
  \<^verbatim>\<open>rxReply\<close> is \<^verbatim>\<open>^(OK|ERR)(\s+(\S.*)?)?$\<close>, matched without regard to letter case
  against the whole line; the result holds the submatches 1, 2 and 3. The dot matches no
  line terminator.
\<close>

definition rxReply :: "string \<Rightarrow> (string \<times> string \<times> string) option" where
  "rxReply l =
     (let k = (if map tolower (take 2 l) = ''ok'' then 2
               else if map tolower (take 3 l) = ''err'' then 3 else 0);
          rest = drop k l
      in if k = 0 then None
         else if rest = [] then Some (take k l, [], [])
         else if isspace (hd rest) \<and> \<not> (\<exists>c \<in> set (dropWhile isspace rest). is_nl c)
              then Some (take k l, rest, dropWhile isspace rest)
              else None)"

text \<open>\<^verbatim>\<open>rxUUID\<close> is \<^verbatim>\<open>^UUID:(\S+)$\<close>, \<^verbatim>\<open>rxRemain\<close> is \<^verbatim>\<open>^Remain:(-?[0-9]+)$\<close>.\<close>

definition rxUUID :: "string \<Rightarrow> string option" where
  "rxUUID l =
     (if map tolower (take 5 l) = ''uuid:'' \<and> drop 5 l \<noteq> [] \<and> \<not> (\<exists>c \<in> set (drop 5 l). isspace c)
      then Some (drop 5 l) else None)"

definition rxRemain :: "string \<Rightarrow> string option" where
  "rxRemain l =
     (let v = drop 7 l;
          ds = (if v \<noteq> [] \<and> hd v = CHR ''-'' then tl v else v)
      in if map tolower (take 7 l) = ''remain:'' \<and> ds \<noteq> [] \<and> (\<forall>c \<in> set ds. isdigit c)
         then Some v else None)"

text \<open>\<^verbatim>\<open>rxRemoveUUID\<close> is \<^verbatim>\<open>^remove-uuid\s+(\S+)$\<close>.\<close>

definition rxRemoveUUID :: "string \<Rightarrow> string option" where
  "rxRemoveUUID l =
     (let rest = drop 11 l; u = dropWhile isspace rest
      in if map tolower (take 11 l) = ''remove-uuid'' \<and> rest \<noteq> [] \<and> isspace (hd rest)
            \<and> u \<noteq> [] \<and> \<not> (\<exists>c \<in> set u. isspace c)
         then Some u else None)"

subsection \<open>ETDProxy::removeUUID\<close>

text \<open>
  The reply loop of \<^verbatim>\<open>ETDProxy::removeUUID\<close>: \<open>buffer\<close> holds the \<open>curPos\<close> bytes read
  so far. The loop ends with \<^verbatim>\<open>true\<close>, or with a failed assertion; it also ends, with
  \<^verbatim>\<open>true\<close>, when 2048 bytes have come without a line.
\<close>

function removeUUID_reply :: "etdc_fd \<Rightarrow> nat \<Rightarrow> string \<Rightarrow> (error + bool) \<times> etdc_fd" where
  "removeUUID_reply c curPos buffer =
     (if curPos < 2048 then
        (case fd_read c (2048 - curPos) of
           (n, bytes, c1) \<Rightarrow>
             if \<not> n > 0 then (Inl ReadFailed, c1)
             else if fst (getReplies (buffer @ bytes)) = []
                  then removeUUID_reply c1 (curPos + nat n) (buffer @ bytes)
             else if length (fst (getReplies (buffer @ bytes))) \<noteq> 1
                  then (Inl WrongNumberOfResponses, c1)
             else (case rxReply (hd (fst (getReplies (buffer @ bytes)))) of
                     None \<Rightarrow> (Inl NonConforming, c1)
                   | Some (f1, f2, f3) \<Rightarrow>
                       if f1 \<noteq> ''OK'' then (Inl (RemoteError (''removeUUID failed: '' @ f2)), c1)
                       else (Inr True, c1)))
      else (Inr True, c))"
  by pat_completeness auto
termination
  by (relation "measure (\<lambda>(c, curPos, buffer). 2048 - curPos)") auto

declare removeUUID_reply.simps [simp del]

definition ETDProxy_removeUUID :: "etdc_fd \<Rightarrow> uuid_type \<Rightarrow> (error + bool) \<times> etdc_fd" where
  "ETDProxy_removeUUID conn uuid =
     (case fd_write conn (''remove-uuid '' @ uuid @ [CHR 0x0A]) of
        (w, c1) \<Rightarrow>
          if w \<noteq> int (length (''remove-uuid '' @ uuid @ [CHR 0x0A])) then (Inl ShortIO, c1)
          else removeUUID_reply c1 0 [])"

subsection \<open>ETDProxy::requestFileRead\<close>

record reply_state =
  finished :: bool
  status_s :: string
  info :: string
  remain :: "int option"
  curUUID :: "uuid_type option"

text \<open>
  The \<^verbatim>\<open>for(; !finished && line!=lines.end(); line++)\<close> loop; it returns the lines it
  did not get to.
\<close>

fun requestFileRead_lines :: "string list \<Rightarrow> reply_state \<Rightarrow> error + reply_state \<times> string list" where
  "requestFileRead_lines [] L = Inr (L, [])"
| "requestFileRead_lines (l # ls) L =
     (if finished L then Inr (L, l # ls)
      else case rxUUID l of
        Some u \<Rightarrow> if curUUID L \<noteq> None then Inl DuplicateField
                  else requestFileRead_lines ls (L\<lparr>curUUID := Some u\<rparr>)
      | None \<Rightarrow>
       (case rxRemain l of
          Some v \<Rightarrow> if remain L \<noteq> None then Inl DuplicateField
                    else (case string2off_t v of
                            Inl e \<Rightarrow> Inl e
                          | Inr r \<Rightarrow> requestFileRead_lines ls (L\<lparr>remain := Some r\<rparr>))
        | None \<Rightarrow>
         (case rxReply l of
            Some (f1, f2, f3) \<Rightarrow>
              requestFileRead_lines ls (L\<lparr>status_s := f1, info := f3, finished := True\<rparr>)
          | None \<Rightarrow> Inl Unrecognized)))"

text \<open>
  The \<^verbatim>\<open>while( !finished && curPos<bufSz )\<close> loop. Every pass needs a read that
  returns something, so the loop ends when the connection has no more to deliver.
\<close>

function requestFileRead_reply ::
  "etdc_fd \<Rightarrow> nat \<Rightarrow> string \<Rightarrow> reply_state \<Rightarrow> (error + reply_state \<times> nat) \<times> etdc_fd" where
  "requestFileRead_reply c curPos buffer L =
     (if \<not> finished L \<and> curPos < 2048 then
        (case fd_read c (2048 - curPos) of
           (n, bytes, c1) \<Rightarrow>
             if \<not> n > 0 then (Inl ReadFailed, c1)
             else (case requestFileRead_lines (fst (getReplies (buffer @ bytes))) L of
                     Inl e \<Rightarrow> (Inl e, c1)
                   | Inr (L1, left) \<Rightarrow>
                       if left \<noteq> [] then (Inl UnprocessedLines, c1)
                       else requestFileRead_reply c1
                              (curPos + nat n - snd (getReplies (buffer @ bytes)))
                              (drop (snd (getReplies (buffer @ bytes))) (buffer @ bytes)) L1))
      else (Inr (L, curPos), c))"
  by pat_completeness auto
termination
proof -
  have dec: "length (contents c1) - offset c1 < length (contents c) - offset c"
    if "(n, bytes, c1) = fd_read c k" "0 < n" for n bytes c1 c k
    using that by (auto simp: fd_read_def Let_def min_def split: if_splits list.splits)
  show ?thesis
    by (relation "measure (\<lambda>(c, curPos, buffer, L). length (contents c) - offset c)")
       (auto dest: dec)
qed

declare requestFileRead_reply.simps [simp del]

definition ETDProxy_requestFileRead ::
  "etdc_fd \<Rightarrow> string \<Rightarrow> int \<Rightarrow> (error + result_type) \<times> etdc_fd" where
  "ETDProxy_requestFileRead conn file already_have =
     (case fd_write conn (''read-file '' @ show_int already_have @ '' '' @ file @ [CHR 0x0A]) of
        (w, c1) \<Rightarrow>
          if w \<noteq> int (length (''read-file '' @ show_int already_have @ '' '' @ file @ [CHR 0x0A]))
          then (Inl ShortIO, c1)
          else (case requestFileRead_reply c1 0 []
                       \<lparr>finished = False, status_s = [], info = [], remain = None, curUUID = None\<rparr> of
                  (Inl e, c2) \<Rightarrow> (Inl e, c2)
                | (Inr (L, curPos), c2) \<Rightarrow>
                    if curPos \<noteq> 0 then (Inl UnconsumedBytes, c2)
                    else if status_s L \<noteq> ''OK''
                    then (Inl (RemoteError (''requestFileRead('' @ file @ '') failed - ''
                                 @ (if info L = [] then ''<unknown reason>'' else info L))), c2)
                    else (case (remain L, curUUID L) of
                            (Some r, Some u) \<Rightarrow> (Inr (u, r), c2)
                          | _ \<Rightarrow> (Inl MissingFields, c2))))"

subsection \<open>The wrapper's replies\<close>

text \<open>
  \<^verbatim>\<open>ETDServerWrapper::handle\<close> writes every prepared reply followed by a newline;
  \<open>wire\<close> is the bytes that makes. \<open>what\<close> is the text of an exception
  (\<^verbatim>\<open>e.what()\<close>), which the sources do not hold.
\<close>

definition wire :: "string list \<Rightarrow> string" where
  "wire replies = concat (map (\<lambda>r. r @ [CHR 0x0A]) replies)"

text \<open>
  The \<^verbatim>\<open>remove-uuid\<close> branch: for a line that \<^verbatim>\<open>rxRemoveUUID\<close> matches (no regular
  expression tried before it matches such a line), the replies and the shared state
  after the call; \<open>None\<close> for another line, or when \<^verbatim>\<open>removeUUID\<close> does not return.
\<close>

definition wrapper_remove_uuid ::
  "(error \<Rightarrow> string) \<Rightarrow> uuid_type \<Rightarrow> etd_state \<Rightarrow> string \<Rightarrow> (string list \<times> etd_state) option" where
  "wrapper_remove_uuid what m_uuid st line =
     (case rxRemoveUUID line of
        None \<Rightarrow> None
      | Some u \<Rightarrow>
          (case removeUUID m_uuid st u of
             None \<Rightarrow> None
           | Some (Inl e, st1) \<Rightarrow> Some ([''ERR '' @ what e], st1)
           | Some (Inr removeResult, st1) \<Rightarrow>
               Some ([if removeResult then ''OK'' else ''ERR Failed to remove UUID''], st1)))"

text \<open>The replies the \<^verbatim>\<open>read-file\<close> branch prepares from the result of \<^verbatim>\<open>requestFileRead\<close>.\<close>

definition wrapper_read_file_replies :: "(error \<Rightarrow> string) \<Rightarrow> error + result_type \<Rightarrow> string list" where
  "wrapper_read_file_replies what res =
     (case res of
        Inl e \<Rightarrow> [''ERR '' @ what e]
      | Inr frresult \<Rightarrow> [''Remain:'' @ show_int (snd frresult), ''UUID:'' @ fst frresult, ''OK''])"

section \<open>Address designators\<close>













section \<open>Example platform and states\<close>

text \<open>
  A file of ten bytes on a file system whose largest offset is \<open>2^44 - 4096\<close>, and a
  data connection whose peer sends the acknowledgement byte.
\<close>

definition example_file :: etdc_fd where
  "example_file = \<lparr>contents = ''0123456789'', offset = 0, seekable = True,
                    max_offset = 17592186040320, rd_script = [],
                    written = [], wr_script = [], calls = [], closed = False\<rparr>"

definition example_conn :: etdc_fd where
  "example_conn = \<lparr>contents = ''y'', offset = 0, seekable = False, max_offset = 0,
                    rd_script = [],
                    written = [], wr_script = [], calls = [], closed = False\<rparr>"

definition example_pf :: platform where
  "example_pf =
     \<lparr>normalize_path = (\<lambda>p. p),
      etdc_file = (\<lambda>p m perm. if p = ''/data/f'' then Some example_file else None),
      mk_client = (\<lambda>a. if a = (''tcp'', ''peer'', 2620) then Some example_conn else None),
      openmode_int = (\<lambda>m. case m of Read \<Rightarrow> 0 | New \<Rightarrow> 193 | OverWrite \<Rightarrow> 577
                               | Resume \<Rightarrow> 1089 | SkipExisting \<Rightarrow> - 194),
      O_LARGEFILE = 0\<rparr>"

definition empty_state :: etd_state where
  "empty_state = \<lparr>transfers = [], dataaddrs = [(''tcp'', ''peer'', 2620)]\<rparr>"

definition example_record :: "openmode_type \<Rightarrow> transferprops_type" where
  "example_record m = \<lparr>fd = example_file, path = ''/data/f'', openMode = m, lock = False\<rparr>"

text \<open>A registry in which the service \<open>u\<close> holds \<^verbatim>\<open>/data/f\<close> in mode \<open>m\<close>.\<close>

definition state_with :: "uuid_type \<Rightarrow> openmode_type \<Rightarrow> etd_state" where
  "state_with u m = \<lparr>transfers = [(u, example_record m)], dataaddrs = [(''tcp'', ''peer'', 2620)]\<rparr>"

definition lossy_conn :: etdc_fd where
  "lossy_conn = \<lparr>contents = [], offset = 0, seekable = False, max_offset = 0,
                  rd_script = [],
                  written = [], wr_script = [3], calls = [], closed = False\<rparr>"

text \<open>
  A platform whose data connection takes only three bytes of the first write and whose
  peer never sends an acknowledgement.
\<close>

definition lossy_pf :: platform where
  "lossy_pf = example_pf\<lparr>mk_client := (\<lambda>a. Some lossy_conn)\<rparr>"



definition chunked_conn :: etdc_fd where
  "chunked_conn = example_conn\<lparr>contents := ''012345'', rd_script := [2, 1, 3]\<rparr>"





section \<open>Properties\<close>

subsection \<open>The registry\<close>

lemma map_find_insert: "map_find m u = None \<Longrightarrow> map_find (map_insert u t m) u = Some t"
  by (induction m) (auto simp: map_find_def split: if_splits)

subsection \<open>Registration\<close>

lemma requestFileWrite_fail_or_ok:
  "(\<exists>e. requestFileWrite pf m_uuid st p mode = (Inl e, st))
   \<or> (\<exists>res st'. requestFileWrite pf m_uuid st p mode = (Inr res, st'))"
  by (simp add: requestFileWrite_def Let_def split: option.split prod.split)

lemma requestFileRead_fail_or_ok:
  "(\<exists>e. requestFileRead pf m_uuid st p a = (Inl e, st))
   \<or> (\<exists>res st'. requestFileRead pf m_uuid st p a = (Inr res, st'))"
  by (simp add: requestFileRead_def Let_def split: option.split prod.split)

lemma requestFileRead_Inr:
  assumes "requestFileRead pf m_uuid st p alreadyhave = (Inr res, st')"
  shows "\<exists>f. etdc_file pf (normalize_path pf p) (openmode_int pf Read OR O_LARGEFILE pf) None = Some f
         \<and> res = (m_uuid, int (length (contents f)) - alreadyhave) \<and> 0 \<le> alreadyhave
         \<and> map_find (transfers st') m_uuid =
             Some \<lparr>fd = f\<lparr>offset := nat alreadyhave\<rparr>, path = normalize_path pf p,
                   openMode = Read, lock = False\<rparr>"
proof (cases "etdc_file pf (normalize_path pf p) (openmode_int pf Read OR O_LARGEFILE pf) None")
  case None
  with assms show ?thesis by (simp add: requestFileRead_def Let_def split: if_splits)
next
  case (Some f)
  have nf: "map_find (transfers st) m_uuid = None"
    using assms by (simp add: requestFileRead_def split: if_splits)
  show ?thesis
  proof (cases "seekable f \<and> 0 \<le> alreadyhave
                  \<and> alreadyhave \<le> int (max (length (contents f)) (max_offset f))")
    case True
    with assms Some nf show ?thesis
      by (auto simp add: requestFileRead_def Let_def fd_lseek_def map_emplace_def map_find_insert
               split: if_splits)
  next
    case False
    with assms Some nf show ?thesis
      by (auto simp add: requestFileRead_def Let_def fd_lseek_def split: if_splits)
  qed
qed

text \<open>
  C4. A successful \<^verbatim>\<open>requestFileRead(path, alreadyHave)\<close> has opened the file of the
  normalized path, left its descriptor at offset \<open>alreadyHave\<close> in the new record, and
  returns the service's own UUID with the file's size minus \<open>alreadyHave\<close>. When the
  file opens and the seek to \<open>alreadyHave\<close> fails, the call fails and the registry is as
  before.
\<close>

theorem requestFileRead_result:
  "(requestFileRead pf m_uuid st p alreadyhave = (Inr res, st') \<longrightarrow>
      (\<exists>f. etdc_file pf (normalize_path pf p) (openmode_int pf Read OR O_LARGEFILE pf) None = Some f
         \<and> res = (m_uuid, int (length (contents f)) - alreadyhave) \<and> 0 \<le> alreadyhave
         \<and> map_find (transfers st') m_uuid =
             Some \<lparr>fd = f\<lparr>offset := nat alreadyhave\<rparr>, path = normalize_path pf p,
                   openMode = Read, lock = False\<rparr>))
   \<and> (\<forall>f. etdc_file pf (normalize_path pf p) (openmode_int pf Read OR O_LARGEFILE pf) None = Some f
           \<and> fst (fd_lseek (snd (fd_lseek f 0 SEEK_END)) alreadyhave SEEK_SET) = - 1
         \<longrightarrow> (\<exists>e. requestFileRead pf m_uuid st p alreadyhave = (Inl e, st)))"
proof (intro conjI impI allI)
  assume "requestFileRead pf m_uuid st p alreadyhave = (Inr res, st')"
  then show "\<exists>f. etdc_file pf (normalize_path pf p) (openmode_int pf Read OR O_LARGEFILE pf) None = Some f
         \<and> res = (m_uuid, int (length (contents f)) - alreadyhave) \<and> 0 \<le> alreadyhave
         \<and> map_find (transfers st') m_uuid =
             Some \<lparr>fd = f\<lparr>offset := nat alreadyhave\<rparr>, path = normalize_path pf p,
                   openMode = Read, lock = False\<rparr>"
    by (rule requestFileRead_Inr)
next
  fix f
  assume a: "etdc_file pf (normalize_path pf p) (openmode_int pf Read OR O_LARGEFILE pf) None = Some f
           \<and> fst (fd_lseek (snd (fd_lseek f 0 SEEK_END)) alreadyhave SEEK_SET) = - 1"
  obtain sz f1 where e1: "fd_lseek f 0 SEEK_END = (sz, f1)"
    by (cases "fd_lseek f 0 SEEK_END")
  obtain r f2 where e2: "fd_lseek f1 alreadyhave SEEK_SET = (r, f2)"
    by (cases "fd_lseek f1 alreadyhave SEEK_SET")
  from a e1 e2 have "r = - 1" by simp
  with a e1 e2 show "\<exists>e. requestFileRead pf m_uuid st p alreadyhave = (Inl e, st)"
    by (simp add: requestFileRead_def Let_def)
qed

theorem requestFileRead_result_witness:
  "requestFileRead example_pf ''u1'' empty_state ''/data/f'' 4
     = (Inr (''u1'', 6),
        empty_state\<lparr>transfers := [(''u1'', \<lparr>fd = example_file\<lparr>offset := 4\<rparr>, path = ''/data/f'',
                                              openMode = Read, lock = False\<rparr>)]\<rparr>)
   \<and> map_find [(''u1'', \<lparr>fd = example_file\<lparr>offset := 4\<rparr>, path = ''/data/f'',
                           openMode = Read, lock = False\<rparr>)] ''u1''
       = Some \<lparr>fd = example_file\<lparr>offset := 4\<rparr>, path = ''/data/f'', openMode = Read, lock = False\<rparr>
   \<and> fst (fd_lseek (snd (fd_lseek example_file 0 SEEK_END)) (- 1) SEEK_SET) = - 1
   \<and> (\<exists>e. requestFileRead example_pf ''u1'' empty_state ''/data/f'' (- 1) = (Inl e, empty_state))"
proof -
  have ok: "requestFileRead example_pf ''u1'' empty_state ''/data/f'' 4
     = (Inr (''u1'', 6),
        empty_state\<lparr>transfers := [(''u1'', \<lparr>fd = example_file\<lparr>offset := 4\<rparr>, path = ''/data/f'',
                                              openMode = Read, lock = False\<rparr>)]\<rparr>)"
    by (simp add: requestFileRead_def example_pf_def empty_state_def example_file_def
                  map_find_def find_path_def fd_lseek_def map_emplace_def Let_def)
  have op: "etdc_file example_pf (normalize_path example_pf ''/data/f'')
              (openmode_int example_pf Read OR O_LARGEFILE example_pf) None = Some example_file"
    by (simp add: example_pf_def)
  have sk: "fst (fd_lseek (snd (fd_lseek example_file 0 SEEK_END)) (- 1) SEEK_SET) = - 1"
    by (simp add: fd_lseek_def example_file_def Let_def)
  from requestFileRead_result [of example_pf "''u1''" empty_state "''/data/f''" 4 _ _]
       requestFileRead_result [of example_pf "''u1''" empty_state "''/data/f''" "- 1"]
       ok op sk
  show ?thesis by (simp add: map_find_def)
qed




text \<open>
  C8. A failing \<^verbatim>\<open>requestFileWrite\<close> or \<^verbatim>\<open>requestFileRead\<close> leaves the shared state,
  and so the transfers map, exactly as it was.
\<close>

theorem registration_error_atomic:
  "(fst (requestFileWrite pf m_uuid st p mode) = Inl e
      \<longrightarrow> snd (requestFileWrite pf m_uuid st p mode) = st
          \<and> transfers (snd (requestFileWrite pf m_uuid st p mode)) = transfers st)
   \<and> (fst (requestFileRead pf m_uuid st p alreadyhave) = Inl e'
      \<longrightarrow> snd (requestFileRead pf m_uuid st p alreadyhave) = st
          \<and> transfers (snd (requestFileRead pf m_uuid st p alreadyhave)) = transfers st)"
  using requestFileWrite_fail_or_ok [of pf m_uuid st p mode]
        requestFileRead_fail_or_ok [of pf m_uuid st p alreadyhave]
  by auto

theorem registration_error_atomic_witness:
  "fst (requestFileWrite example_pf ''u1'' (state_with ''u2'' Read) ''/nowhere'' New) = Inl OpenFailed
   \<and> snd (requestFileWrite example_pf ''u1'' (state_with ''u2'' Read) ''/nowhere'' New)
       = state_with ''u2'' Read
   \<and> fst (requestFileRead example_pf ''u1'' (state_with ''u2'' Read) ''/data/f'' (- 1)) = Inl SeekFailed
   \<and> snd (requestFileRead example_pf ''u1'' (state_with ''u2'' Read) ''/data/f'' (- 1))
       = state_with ''u2'' Read"
proof -
  have w: "fst (requestFileWrite example_pf ''u1'' (state_with ''u2'' Read) ''/nowhere'' New) = Inl OpenFailed"
    by (simp add: requestFileWrite_def example_pf_def state_with_def example_record_def
                  map_find_def find_path_def allowedModes_def)
  have r: "fst (requestFileRead example_pf ''u1'' (state_with ''u2'' Read) ''/data/f'' (- 1)) = Inl SeekFailed"
    by (simp add: requestFileRead_def example_pf_def state_with_def example_record_def
                  example_file_def map_find_def find_path_def fd_lseek_def Let_def)
  from registration_error_atomic
         [of example_pf "''u1''" "state_with ''u2'' Read" "''/nowhere''" New OpenFailed]
       registration_error_atomic
         [of example_pf "''u1''" "state_with ''u2'' Read" "''/data/f''" _ _ "- 1" SeekFailed] w r
  show ?thesis by simp
qed

subsection \<open>Transfers of no bytes\<close>

text \<open>
  C9. With the own-UUID check passed and a byte count that is zero or negative,
  \<^verbatim>\<open>sendFile\<close> and \<^verbatim>\<open>getFile\<close> return true at once: the shared state is untouched, no
  data connection is opened (none is returned), and whether a record exists, or in which
  mode, is not looked at (\<open>st\<close> is arbitrary).
\<close>

theorem sendFile_getFile_nothing_to_do:
  assumes "todo \<le> 0"
  shows "sendFile pf m_uuid st m_uuid dstUUID todo dataAddrs = Some (Inr True, st, None)
       \<and> getFile pf m_uuid st srcUUID m_uuid todo dataAddrs = Some (Inr True, st, None)"
  using assms
  by (simp add: sendFile_def getFile_def sendFile_outer.simps getFile_outer.simps)

theorem sendFile_getFile_nothing_to_do_witness:
  "(0::int) \<le> 0
   \<and> sendFile example_pf ''u1'' empty_state ''u1'' ''u2'' 0 [] = Some (Inr True, empty_state, None)
   \<and> getFile example_pf ''u1'' (state_with ''u1'' Read) ''u2'' ''u1'' 0 [] 
       = Some (Inr True, state_with ''u1'' Read, None)"
proof -
  have h: "(0::int) \<le> 0" by simp
  from sendFile_getFile_nothing_to_do [OF h, of example_pf "''u1''" empty_state "''u2''" "[]"]
       sendFile_getFile_nothing_to_do [OF h, of example_pf "''u1''" "state_with ''u1'' Read" _ "[]" "''u2''"]
  show ?thesis by simp
qed

subsection \<open>sendFile\<close>

lemma fd_read_full:
  assumes "fd_read src n = (int n, buf, src1)"
  shows "buf = take n (drop (offset src) (contents src)) \<and> length buf = n
       \<and> offset src1 = offset src + n \<and> contents src1 = contents src"
  using assms
  by (auto simp: fd_read_def Let_def min_def split: if_splits list.splits)

lemma fd_write_full:
  assumes "fd_write dst bs = (int (length bs), dst1)"
  shows "written dst1 = written dst @ bs \<and> calls dst1 = calls dst @ [WR bs (int (length bs))]"
  using assms
  by (auto simp: fd_write_def Let_def min_def split: if_splits list.splits)

lemma sendFile_loop_ok:
  "sendFile_loop todo src dst = (Inr todo1, src1, d2) \<Longrightarrow> 0 \<le> todo \<Longrightarrow>
     todo1 = 0 \<and> offset src1 = offset src + nat todo \<and> contents src1 = contents src
     \<and> length (take (nat todo) (drop (offset src) (contents src))) = nat todo
     \<and> written d2 = written dst @ take (nat todo) (drop (offset src) (contents src))
     \<and> (\<exists>ws. calls d2 = calls dst @ ws \<and> list_all complete_write ws
            \<and> concat (map wr_bytes ws) = take (nat todo) (drop (offset src) (contents src)))"
proof (induction todo src dst rule: sendFile_loop.induct)
  case (1 todo src dst)
  show ?case
  proof (cases "todo > 0")
    case False
    with "1.prems" show ?thesis by (simp add: sendFile_loop.simps [of todo])
  next
    case True
    define n where "n = min (nat todo) bufSz"
    obtain r buf s1 where rd: "fd_read src n = (r, buf, s1)" by (cases "fd_read src n")
    obtain w d1 where wr: "fd_write dst (take n buf) = (w, d1)" by (cases "fd_write dst (take n buf)")
    from "1.prems"(1) True rd wr have rn: "r = int n" and wn: "w = int n"
      and rec: "sendFile_loop (todo - int n) s1 d1 = (Inr todo1, src1, d2)"
      by (auto simp: sendFile_loop.simps [of todo] n_def [symmetric] Let_def split: if_splits)
    from rd rn have R: "buf = take n (drop (offset src) (contents src))" "length buf = n"
        "offset s1 = offset src + n" "contents s1 = contents src"
      using fd_read_full by blast+
    from wr wn R have W: "written d1 = written dst @ buf" "calls d1 = calls dst @ [WR buf (int n)]"
      using fd_write_full [of dst buf d1] by auto
    have nle: "int n \<le> todo" using True by (simp add: n_def)
    have IH: "todo1 = 0 \<and> offset src1 = offset s1 + nat (todo - int n) \<and> contents src1 = contents s1
     \<and> length (take (nat (todo - int n)) (drop (offset s1) (contents s1))) = nat (todo - int n)
     \<and> written d2 = written d1 @ take (nat (todo - int n)) (drop (offset s1) (contents s1))
     \<and> (\<exists>ws. calls d2 = calls d1 @ ws \<and> list_all complete_write ws
            \<and> concat (map wr_bytes ws) = take (nat (todo - int n)) (drop (offset s1) (contents s1)))"
    proof -
      have c1: "\<not> r \<noteq> int n" and c2: "\<not> w \<noteq> int n" and c3: "0 \<le> todo - int n"
        using rn wn nle by simp_all
      show ?thesis
        by (rule "1.IH" [OF True n_def refl rd [symmetric] refl c1 refl wr [symmetric] c2 rec c3])
    qed
    have split: "take (nat todo) (drop (offset src) (contents src))
         = buf @ take (nat (todo - int n)) (drop (offset s1) (contents s1))"
    proof -
      have "nat todo = n + nat (todo - int n)" using nle by simp
      then show ?thesis using R by (simp add: take_add add.commute)
    qed
    from IH obtain ws where ws: "calls d2 = calls d1 @ ws" "list_all complete_write ws"
      "concat (map wr_bytes ws) = take (nat (todo - int n)) (drop (offset s1) (contents s1))"
      by blast
    have "calls d2 = calls dst @ (WR buf (int n) # ws) \<and> list_all complete_write (WR buf (int n) # ws)
          \<and> concat (map wr_bytes (WR buf (int n) # ws)) = take (nat todo) (drop (offset src) (contents src))"
      using ws W R split by simp
    then have ex: "\<exists>ws. calls d2 = calls dst @ ws \<and> list_all complete_write ws
            \<and> concat (map wr_bytes ws) = take (nat todo) (drop (offset src) (contents src))"
      by blast
    have len: "length (take (nat todo) (drop (offset src) (contents src))) = nat todo"
      using IH R nle unfolding split by simp
    show ?thesis
      using IH R W nle ex len unfolding split by simp
  qed
qed


lemma fd_read_calls:
  "calls (snd (snd (fd_read d n))) = calls d @ [RD n (fst (fd_read d n))]
   \<and> written (snd (snd (fd_read d n))) = written d"
  by (simp add: fd_read_def Let_def split: list.split)

lemma fd_write_calls:
  "calls (snd (fd_write d bs)) = calls d @ [WR bs (fst (fd_write d bs))]
   \<and> written (snd (fd_write d bs)) = written d @ take (nat (fst (fd_write d bs))) bs"
  by (simp add: fd_write_def Let_def split: list.split)

lemma sendFile_outer_locked:
  assumes "sendFile_outer pf m_uuid dstUUID dataAddrs todo st conn = Some y"
  shows "\<not> (0 < todo \<and> (\<exists>t. map_find (transfers st) m_uuid = Some t \<and> lock t))"
  by (rule sendFile_outer.raw_induct
        [where P = "\<lambda>pf m_uuid dstUUID dataAddrs todo st conn y.
                      \<not> (0 < todo \<and> (\<exists>t. map_find (transfers st) m_uuid = Some t \<and> lock t))",
         OF _ assms])
     (auto split: if_splits option.splits)

text \<open>
  The calls of a successful \<^verbatim>\<open>sendFile\<close> of \<open>n > 0\<close> bytes on the data connection,
  in their order: one write of the header \<^verbatim>\<open>{ uuid:<dstUUID>, sz:<n>}\<close>, returning
  some \<open>r0\<close>, writes that each took all their bytes and that together carry exactly the
  next \<open>n\<close> bytes of the file, and one read of one byte, returning some \<open>ra\<close>. The
  file's bytes are on the connection in full; of the header, the \<open>r0\<close> bytes that the
  connection accepted.
\<close>

lemma sendFile_calls:
  assumes pos: "0 < n"
    and ok: "sendFile pf m_uuid st m_uuid dstUUID n dataAddrs = Some (Inr True, st', c)"
  shows "\<exists>t dstFD d r0 ws ra.
      map_find (transfers st) m_uuid = Some t \<and> openMode t = Read
    \<and> connect_first pf dataAddrs = Some dstFD \<and> c = Some d
    \<and> length (take (nat n) (drop (offset (fd t)) (contents (fd t)))) = nat n
    \<and> calls d = calls dstFD @ [WR (sendFile_header dstUUID n) r0] @ ws @ [RD 1 ra]
    \<and> list_all complete_write ws
    \<and> concat (map wr_bytes ws) = take (nat n) (drop (offset (fd t)) (contents (fd t)))
    \<and> written d = written dstFD @ take (nat r0) (sendFile_header dstUUID n)
                     @ take (nat n) (drop (offset (fd t)) (contents (fd t)))"
proof -
  from ok have o: "sendFile_outer pf m_uuid dstUUID dataAddrs n st None = Some (Inr True, st', c)"
    by (simp add: sendFile_def)
  from o pos obtain t where t: "map_find (transfers st) m_uuid = Some t"
    by (cases "map_find (transfers st) m_uuid") (simp_all add: sendFile_outer.simps [of _ _ _ _ n])
  from sendFile_outer_locked [OF o] pos t have nl: "\<not> lock t" by blast
  from o pos t nl have rd: "openMode t = Read"
    by (cases "openMode t = Read") (simp_all add: sendFile_outer.simps [of _ _ _ _ n])
  from o pos t nl rd obtain dstFD where cf: "connect_first pf dataAddrs = Some dstFD"
    by (cases "connect_first pf dataAddrs") (simp_all add: sendFile_outer.simps [of _ _ _ _ n])
  define d1 where "d1 = snd (fd_write dstFD (sendFile_header dstUUID n))"
  define r0 where "r0 = fst (fd_write dstFD (sendFile_header dstUUID n))"
  obtain r src1 d2 where lp: "sendFile_loop n (fd t) d1 = (r, src1, d2)"
    by (cases "sendFile_loop n (fd t) d1")
  from o pos t nl rd cf lp obtain todo1 where r: "r = Inr todo1"
    by (cases r) (simp_all add: sendFile_outer.simps [of _ _ _ _ n] d1_def)
  from sendFile_loop_ok [OF lp [unfolded r]] pos
  have z: "todo1 = 0"
    and len: "length (take (nat n) (drop (offset (fd t)) (contents (fd t)))) = nat n"
    and wr: "written d2 = written d1 @ take (nat n) (drop (offset (fd t)) (contents (fd t)))"
    and ex: "\<exists>ws. calls d2 = calls d1 @ ws \<and> list_all complete_write ws
            \<and> concat (map wr_bytes ws) = take (nat n) (drop (offset (fd t)) (contents (fd t)))"
    by simp_all
  from ex obtain ws where ws: "calls d2 = calls d1 @ ws" "list_all complete_write ws"
       "concat (map wr_bytes ws) = take (nat n) (drop (offset (fd t)) (contents (fd t)))"
    by blast
  define d3 where "d3 = snd (snd (fd_read d2 1))"
  from o pos t nl rd cf lp r z have c: "c = Some d3"
    by (simp add: sendFile_outer.simps [of _ _ _ _ n] sendFile_outer.simps [of _ _ _ _ 0]
                  d1_def d3_def)
  have c1: "calls d1 = calls dstFD @ [WR (sendFile_header dstUUID n) r0]"
    and w1: "written d1 = written dstFD @ take (nat r0) (sendFile_header dstUUID n)"
    using fd_write_calls [of dstFD "sendFile_header dstUUID n"] by (simp_all add: d1_def r0_def)
  have c3: "calls d3 = calls d2 @ [RD 1 (fst (fd_read d2 1))]" and w3: "written d3 = written d2"
    using fd_read_calls [of d2 1] by (simp_all add: d3_def)
  have "calls d3 = calls dstFD @ [WR (sendFile_header dstUUID n) r0] @ ws @ [RD 1 (fst (fd_read d2 1))]"
    using c1 c3 ws by simp
  moreover have "written d3 = written dstFD @ take (nat r0) (sendFile_header dstUUID n)
                     @ take (nat n) (drop (offset (fd t)) (contents (fd t)))"
    using w1 w3 wr by simp
  ultimately show ?thesis using t rd cf c len ws by blast
qed

lemma sendFile_calls_example:
  "sendFile example_pf ''u1'' (state_with ''u1'' Read) ''u1'' ''u2'' 10
         [(''udt'', ''peer'', 1), (''tcp'', ''peer'', 2620)]
       = Some (Inr True,
           \<lparr>transfers = [(''u1'', \<lparr>fd = example_file\<lparr>offset := 10, calls := [RD 10 10]\<rparr>,
                                    path = ''/data/f'', openMode = Read, lock = False\<rparr>)],
            dataaddrs = [(''tcp'', ''peer'', 2620)]\<rparr>,
           Some (example_conn\<lparr>offset := 1, written := ''{ uuid:u2, sz:10}0123456789'',
                   calls := [WR ''{ uuid:u2, sz:10}'' 17, WR ''0123456789'' 10, RD 1 1]\<rparr>))"
  by (simp add: sendFile_def sendFile_outer.simps sendFile_loop.simps
        sendFile_header_def show_int_def show_nat.simps digit_char_def
        example_pf_def state_with_def map_find_def example_record_def
        example_conn_def example_file_def fd_write_def fd_read_def bufSz_def Let_def
        map_update_def)

text \<open>
  C3. The claim says that a successful \<^verbatim>\<open>sendFile\<close> has put the header and then the
  \<open>n\<close> bytes of the file on the data connection and has read one acknowledgement byte.
  The source means the same: it asserts every write of the file's bytes, and at the read of
  the acknowledgement it says "wait here until the recipient has acknowledged receipt of
  all bytes" and logs "... got it". But it drops the results of the header write and of the
  acknowledgement read. Here the service \<^verbatim>\<open>u1\<close> holds the ten-byte file for reading
  and sends it to \<^verbatim>\<open>u2\<close> over a connection that takes three bytes of the seventeen
  of the header and whose peer closes without acknowledging: \<^verbatim>\<open>sendFile\<close> returns
  true, the bytes on the connection are \<^verbatim>\<open>{ u0123456789\<close>, not the header followed
  by the file's bytes, and the read of the acknowledgement returned no byte.
\<close>

theorem sendFile_header_and_ack_unchecked:
  "sendFile lossy_pf ''u1'' (state_with ''u1'' Read) ''u1'' ''u2'' 10 [(''tcp'', ''peer'', 2620)]
     = Some (Inr True,
         \<lparr>transfers = [(''u1'', \<lparr>fd = example_file\<lparr>offset := 10, calls := [RD 10 10]\<rparr>,
                                  path = ''/data/f'', openMode = Read, lock = False\<rparr>)],
          dataaddrs = [(''tcp'', ''peer'', 2620)]\<rparr>,
         Some (lossy_conn\<lparr>written := ''{ u0123456789'', wr_script := [],
                 calls := [WR ''{ uuid:u2, sz:10}'' 3, WR ''0123456789'' 10, RD 1 0]\<rparr>))
   \<and> openMode (example_record Read) = Read
   \<and> sendFile_header ''u2'' 10 = ''{ uuid:u2, sz:10}''
   \<and> ''{ u0123456789'' \<noteq> sendFile_header ''u2'' 10 @ ''0123456789''
   \<and> last [WR ''{ uuid:u2, sz:10}'' 3, WR ''0123456789'' 10, RD 1 0] = RD 1 0"
  by (simp add: sendFile_def sendFile_outer.simps sendFile_loop.simps
        sendFile_header_def show_int_def show_nat.simps digit_char_def
        lossy_pf_def example_pf_def state_with_def map_find_def example_record_def
        lossy_conn_def example_file_def fd_write_def fd_read_def bufSz_def Let_def
        map_update_def)

subsection \<open>The bulk copy loops\<close>



lemma size_t_of_id: "0 \<le> i \<Longrightarrow> i < 2 ^ 64 \<Longrightarrow> size_t_of i = nat i"
  by (simp add: size_t_of_def)












lemma pull_n_nothing:
  assumes "0 < n" "n < 2 ^ 64" "rdPos < bufSize" "bufSize < 2 ^ 64"
    and "fst (fd_read src (min n (bufSize - rdPos))) = 0"
  shows "pull_n n src dst rdPos rdPos bufSize buf
           = Some (Inl NoBytes, snd (snd (fd_read src (min n (bufSize - rdPos)))), dst)"
proof -
  obtain a bytes src1 where rd: "fd_read src (min n (bufSize - rdPos)) = (a, bytes, src1)"
    by (cases "fd_read src (min n (bufSize - rdPos))")
  with assms have a: "a = 0" by simp
  have k1: "size_t_of (int n) = n" using assms by (simp add: size_t_of_def)
  have k2: "size_t_of (int bufSize - int rdPos) = bufSize - rdPos"
    using assms by (subst size_t_of_id) auto
  have k3: "size_t_of 0 = 0" by (simp add: size_t_of_def)
  show ?thesis
    using assms(1) rd a
    by (simp add: pull_n_def pull_n_loop.simps [of n] k1 k2 k3)
qed














subsection \<open>The data-channel handler\<close>

text \<open>
  C6. When the key-value pairs of a data-channel header hold a key \<^verbatim>\<open>push\<close> (in any
  letter case) whose value is not the string \<^verbatim>\<open>1\<close>, the handler raises one of its
  header errors (the push error itself once \<^verbatim>\<open>uuid\<close> and \<^verbatim>\<open>sz\<close> are there), with
  the shared state and the connection as they were: no transfer has been looked up,
  locked, read or written. A header without a \<^verbatim>\<open>push\<close> key, with \<^verbatim>\<open>uuid\<close> and a
  numeric \<^verbatim>\<open>sz\<close> that name an unlocked transfer open for writing, is served as a pull:
  the handler's result is that of \<^verbatim>\<open>pull_n\<close> from the connection into the transfer's
  file.
\<close>

theorem handle_push_value:
  "(kv_find kvpairs ''push'' = Some v \<and> v \<noteq> ''1'' \<longrightarrow>
      (\<exists>e. e \<in> {NoUUIDSent, NoAmountSent, BadPushValue}
           \<and> handle_command kvpairs st conn rdPos curPos buf = Some (Inl e, st, conn))
      \<and> (kv_find kvpairs ''uuid'' \<noteq> None \<and> kv_find kvpairs ''sz'' \<noteq> None
           \<longrightarrow> handle_command kvpairs st conn rdPos curPos buf = Some (Inl BadPushValue, st, conn)))
   \<and> (kv_find kvpairs ''push'' = None \<and> kv_find kvpairs ''uuid'' = Some u
        \<and> kv_find kvpairs ''sz'' = Some szs \<and> string2off_t szs = Inr sz
        \<and> map_find (transfers st) u = Some t \<and> \<not> lock t \<and> openMode t \<in> {New, OverWrite, Resume}
      \<longrightarrow> handle_command kvpairs st conn rdPos curPos buf
            = Option.bind (pull_n (size_t_of sz) conn (fd t) rdPos curPos bufSz buf)
                (\<lambda>res. case res of (r, c1, f1) \<Rightarrow>
                   Some (r, st\<lparr>transfers := map_update u (t\<lparr>fd := f1\<rparr>) (transfers st)\<rparr>, c1)))"
proof (intro conjI impI)
  assume a: "kv_find kvpairs ''push'' = Some v \<and> v \<noteq> ''1''"
  then show "\<exists>e. e \<in> {NoUUIDSent, NoAmountSent, BadPushValue}
           \<and> handle_command kvpairs st conn rdPos curPos buf = Some (Inl e, st, conn)"
    by (cases "kv_find kvpairs ''uuid''"; cases "kv_find kvpairs ''sz''")
       (simp_all add: handle_command_def)
  assume "kv_find kvpairs ''uuid'' \<noteq> None \<and> kv_find kvpairs ''sz'' \<noteq> None"
  with a show "handle_command kvpairs st conn rdPos curPos buf = Some (Inl BadPushValue, st, conn)"
    by (auto simp: handle_command_def)
next
  assume a: "kv_find kvpairs ''push'' = None \<and> kv_find kvpairs ''uuid'' = Some u
        \<and> kv_find kvpairs ''sz'' = Some szs \<and> string2off_t szs = Inr sz
        \<and> map_find (transfers st) u = Some t \<and> \<not> lock t \<and> openMode t \<in> {New, OverWrite, Resume}"
  then have "lock_transfer st u False = Some (Inr t)"
    by (subst lock_transfer.simps) (auto simp: allowedWriteModes_data_def)
  with a show "handle_command kvpairs st conn rdPos curPos buf
            = Option.bind (pull_n (size_t_of sz) conn (fd t) rdPos curPos bufSz buf)
                (\<lambda>res. case res of (r, c1, f1) \<Rightarrow>
                   Some (r, st\<lparr>transfers := map_update u (t\<lparr>fd := f1\<rparr>) (transfers st)\<rparr>, c1))"
    by (simp add: handle_command_def)
qed

theorem handle_push_value_witness:
  "kv_find [(''uuid'', ''u1''), (''sz'', ''6''), (''PUSH'', ''yes'')] ''push'' = Some ''yes''
   \<and> handle_command [(''uuid'', ''u1''), (''sz'', ''6''), (''PUSH'', ''yes'')]
         (state_with ''u1'' New) chunked_conn 16 18 ''{ uuid:u1, sz:8}ab''
       = Some (Inl BadPushValue, state_with ''u1'' New, chunked_conn)
   \<and> kv_find [(''uuid'', ''u1''), (''sz'', ''8'')] ''push'' = None
   \<and> handle_command [(''uuid'', ''u1''), (''sz'', ''8'')]
         (state_with ''u1'' New) chunked_conn 16 18 ''{ uuid:u1, sz:8}ab''
       = Option.bind (pull_n (size_t_of 8) chunked_conn (fd (example_record New)) 16 18 bufSz
                        ''{ uuid:u1, sz:8}ab'')
           (\<lambda>res. case res of (r, c1, f1) \<Rightarrow>
              Some (r, (state_with ''u1'' New)
                         \<lparr>transfers := map_update ''u1'' ((example_record New)\<lparr>fd := f1\<rparr>)
                                         (transfers (state_with ''u1'' New))\<rparr>, c1))"
proof -
  note t = handle_push_value
  have h1: "kv_find [(''uuid'', ''u1''), (''sz'', ''6''), (''PUSH'', ''yes'')] ''push'' = Some ''yes''
            \<and> ''yes'' \<noteq> ''1''"
    by (simp add: kv_find_def tolower_def)
  have h1': "kv_find [(''uuid'', ''u1''), (''sz'', ''6''), (''PUSH'', ''yes'')] ''uuid'' \<noteq> None
            \<and> kv_find [(''uuid'', ''u1''), (''sz'', ''6''), (''PUSH'', ''yes'')] ''sz'' \<noteq> None"
    by (simp add: kv_find_def tolower_def)
  have h2: "kv_find [(''uuid'', ''u1''), (''sz'', ''8'')] ''push'' = None
        \<and> kv_find [(''uuid'', ''u1''), (''sz'', ''8'')] ''uuid'' = Some ''u1''
        \<and> kv_find [(''uuid'', ''u1''), (''sz'', ''8'')] ''sz'' = Some ''8'' \<and> string2off_t ''8'' = Inr 8
        \<and> map_find (transfers (state_with ''u1'' New)) ''u1'' = Some (example_record New)
        \<and> \<not> lock (example_record New) \<and> openMode (example_record New) \<in> {New, OverWrite, Resume}"
    by (simp add: kv_find_def tolower_def string2off_t_def isspace_def isdigit_def read_nat_def
                  digit_val_def map_find_def state_with_def example_record_def Let_def)
  have c1: "handle_command [(''uuid'', ''u1''), (''sz'', ''6''), (''PUSH'', ''yes'')]
         (state_with ''u1'' New) chunked_conn 16 18 ''{ uuid:u1, sz:8}ab''
       = Some (Inl BadPushValue, state_with ''u1'' New, chunked_conn)"
    by (rule mp [OF conjunct2 [OF mp [OF conjunct1 [OF t] h1]] h1'])
  have c2: "handle_command [(''uuid'', ''u1''), (''sz'', ''8'')]
         (state_with ''u1'' New) chunked_conn 16 18 ''{ uuid:u1, sz:8}ab''
       = Option.bind (pull_n (size_t_of 8) chunked_conn (fd (example_record New)) 16 18 bufSz
                        ''{ uuid:u1, sz:8}ab'')
           (\<lambda>res. case res of (r, c1, f1) \<Rightarrow>
              Some (r, (state_with ''u1'' New)
                         \<lparr>transfers := map_update ''u1'' ((example_record New)\<lparr>fd := f1\<rparr>)
                                         (transfers (state_with ''u1'' New))\<rparr>, c1))"
    by (rule mp [OF conjunct2 [OF t] h2])
  from h1 h2 c1 c2 show ?thesis by blast
qed

subsection \<open>The control protocol\<close>

paragraph \<open>Decimal digits\<close>

lemma digit_char_props:
  assumes "d < 10"
  shows "isdigit (digit_char d) \<and> digit_val (digit_char d) = d \<and> \<not> isspace (digit_char d)
         \<and> \<not> is_nl (digit_char d) \<and> digit_char d \<noteq> CHR '':'' \<and> digit_char d \<noteq> CHR ''/''"
proof -
  from assms have "d \<in> {0, 1, 2, 3, 4, 5, 6, 7, 8, 9}" by auto
  then show ?thesis
    by (auto simp: digit_char_def isdigit_def digit_val_def isspace_def is_nl_def)
qed

lemma show_nat_digits: "show_nat n \<noteq> [] \<and> (\<forall>c \<in> set (show_nat n). isdigit c)"
proof (induction n rule: show_nat.induct)
  case (1 n)
  show ?case
  proof (cases "n < 10")
    case True
    then show ?thesis using digit_char_props [of n] by (simp add: show_nat.simps [of n])
  next
    case False
    then show ?thesis
      using "1.IH" digit_char_props [of "n mod 10"] by (simp add: show_nat.simps [of n])
  qed
qed

lemma read_nat_snoc: "read_nat (ds @ [c]) = 10 * read_nat ds + digit_val c"
  by (simp add: read_nat_def)

lemma read_nat_show_nat: "read_nat (show_nat n) = n"
proof (induction n rule: show_nat.induct)
  case (1 n)
  show ?case
  proof (cases "n < 10")
    case True
    then show ?thesis
      using digit_char_props [of n] by (simp add: show_nat.simps [of n] read_nat_def)
  next
    case False
    then show ?thesis
      using "1.IH" digit_char_props [of "n mod 10"]
      by (simp add: show_nat.simps [of n] read_nat_snoc)
  qed
qed

lemma isdigit_props:
  assumes "isdigit c"
  shows "\<not> isspace c \<and> \<not> is_nl c \<and> c \<noteq> CHR '':'' \<and> c \<noteq> CHR ''/'' \<and> c \<noteq> CHR ''-''"
  using assms by (auto simp: isdigit_def isspace_def is_nl_def)

lemma string2off_t_show_int:
  assumes "- (2 ^ 63) \<le> i" "i < 2 ^ 63"
  shows "string2off_t (show_int i) = Inr i"
proof (cases "i < 0")
  case True
  have d: "takeWhile isdigit (show_nat (nat (- i))) = show_nat (nat (- i))"
    using show_nat_digits [of "nat (- i)"] by (simp add: takeWhile_eq_all_conv)
  have "\<not> isspace CHR ''-''" by (simp add: isspace_def)
  then show ?thesis
    using True assms show_nat_digits [of "nat (- i)"]
    by (simp add: string2off_t_def show_int_def Let_def d read_nat_show_nat)
next
  case False
  have nn: "show_nat (nat i) \<noteq> []" and dg: "\<forall>c \<in> set (show_nat (nat i)). isdigit c"
    using show_nat_digits [of "nat i"] by simp_all
  then have h: "isdigit (hd (show_nat (nat i)))" by (cases "show_nat (nat i)") auto
  have d: "takeWhile isdigit (show_nat (nat i)) = show_nat (nat i)"
    using dg by (simp add: takeWhile_eq_all_conv)
  have sp: "dropWhile isspace (show_nat (nat i)) = show_nat (nat i)"
    using nn h isdigit_props by (cases "show_nat (nat i)") auto
  have sg: "hd (show_nat (nat i)) \<noteq> CHR ''-'' \<and> hd (show_nat (nat i)) \<noteq> CHR ''+''"
    using h by (auto simp: isdigit_def)
  show ?thesis
    using False assms nn sg
    by (simp add: string2off_t_def show_int_def Let_def d sp read_nat_show_nat)
qed

paragraph \<open>Lines\<close>

lemma getReplies_Nil: "getReplies [] = ([], 0)"
  by (simp add: getReplies.simps)

lemma getReplies_line:
  assumes "l \<noteq> []" "\<forall>c \<in> set l. \<not> is_nl c" "rest = [] \<or> \<not> is_nl (hd rest)"
  shows "getReplies (l @ CHR 0x0A # rest)
           = (l # fst (getReplies rest), length l + 1 + snd (getReplies rest))"
proof -
  have h: "\<not> is_nl (hd l)" using assms by (cases l) auto
  have a: "dropWhile is_nl (l @ CHR 0x0A # rest) = l @ CHR 0x0A # rest"
    using assms h by (cases l) auto
  have b: "takeWhile (\<lambda>c. \<not> is_nl c) (l @ CHR 0x0A # rest) = l"
    using assms by (simp add: takeWhile_append2 is_nl_def)
  have c: "dropWhile (\<lambda>c. \<not> is_nl c) (l @ CHR 0x0A # rest) = CHR 0x0A # rest"
    using assms by (simp add: dropWhile_append2 is_nl_def)
  have d: "dropWhile is_nl (CHR 0x0A # rest) = rest"
    using assms by (cases rest) (auto simp: is_nl_def)
  show ?thesis
    using assms(1) by (subst getReplies.simps) (simp only: Let_def a b c d, simp)
qed


paragraph \<open>removeUUID\<close>

lemma removeUUID_reply_not_False: "fst (removeUUID_reply c curPos buffer) \<noteq> Inr False"
proof (induction c curPos buffer rule: removeUUID_reply.induct)
  case (1 c curPos buffer)
  obtain n bytes c1 where rd: "fd_read c (2048 - curPos) = (n, bytes, c1)"
    by (cases "fd_read c (2048 - curPos)")
  show ?case
  proof (cases "curPos < 2048 \<and> 0 < n \<and> fst (getReplies (buffer @ bytes)) = []")
    case True
    then have "removeUUID_reply c curPos buffer = removeUUID_reply c1 (curPos + nat n) (buffer @ bytes)"
      using rd by (subst removeUUID_reply.simps) simp
    moreover have "fst (removeUUID_reply c1 (curPos + nat n) (buffer @ bytes)) \<noteq> Inr False"
    proof -
      have p1: "curPos < 2048" and p2: "\<not> \<not> 0 < n"
        and p3: "fst (getReplies (buffer @ bytes)) = []"
        using True by simp_all
      show ?thesis by (rule "1.IH" [OF p1 rd [symmetric] refl p2 p3])
    qed
    ultimately show ?thesis by simp
  next
    case False
    then show ?thesis
      using rd
      by (subst removeUUID_reply.simps) (auto split: option.splits)
  qed
qed

lemma ETDProxy_removeUUID_not_False: "fst (ETDProxy_removeUUID c u) \<noteq> Inr False"
  using removeUUID_reply_not_False
  by (simp add: ETDProxy_removeUUID_def split: prod.split)

lemma rxRemoveUUID_line:
  assumes "u \<noteq> []" "\<forall>c \<in> set u. \<not> isspace c"
  shows "rxRemoveUUID (''remove-uuid '' @ u) = Some u"
proof -
  have "dropWhile isspace u = u" using assms by (cases u) auto
  then show ?thesis
    using assms by (simp add: rxRemoveUUID_def Let_def tolower_def isspace_def)
qed

lemma removeUUID_absent_local:
  assumes "map_find (transfers st) m_uuid = None"
  shows "removeUUID m_uuid st m_uuid = Some (Inr False, st)"
  using assms by (simp add: removeUUID_def removeUUID_loop.simps)

lemma wrapper_remove_uuid_absent:
  assumes "map_find (transfers st) m_uuid = None" "m_uuid \<noteq> []" "\<forall>c \<in> set m_uuid. \<not> isspace c"
  shows "wrapper_remove_uuid what m_uuid st (''remove-uuid '' @ m_uuid)
           = Some ([''ERR Failed to remove UUID''], st)"
proof -
  have "rxRemoveUUID (''remove-uuid '' @ m_uuid) = Some m_uuid"
    using assms(2,3) by (rule rxRemoveUUID_line)
  then show ?thesis
    by (simp only: wrapper_remove_uuid_def option.case removeUUID_absent_local [OF assms(1)]
                   prod.case sum.case if_False)
qed

lemma getReplies_ERR:
  "getReplies ''ERR Failed to remove UUID\<newline>'' = ([''ERR Failed to remove UUID''], 26)"
  using getReplies_line [of "''ERR Failed to remove UUID''" "[]"]
  by (simp add: is_nl_def getReplies_Nil)

lemma rxReply_ERR:
  "rxReply ''ERR Failed to remove UUID''
     = Some (''ERR'', '' Failed to remove UUID'', ''Failed to remove UUID'')"
  by (simp add: rxReply_def tolower_def isspace_def is_nl_def Let_def)

lemma ETDProxy_removeUUID_ERR:
  assumes "drop (offset conn) (contents conn) = wire [''ERR Failed to remove UUID'']"
    and "rd_script conn = []" "wr_script conn = []"
  shows "fst (ETDProxy_removeUUID conn u)
           = Inl (RemoteError ''removeUUID failed:  Failed to remove UUID'')"
proof -
  define c1 where "c1 = snd (fd_write conn (''remove-uuid '' @ u @ [CHR 0x0A]))"
  have w: "fd_write conn (''remove-uuid '' @ u @ [CHR 0x0A])
             = (int (length (''remove-uuid '' @ u @ [CHR 0x0A])), c1)"
    using assms by (simp add: c1_def fd_write_def Let_def)
  have c1: "drop (offset c1) (contents c1) = ''ERR Failed to remove UUID\<newline>''" "rd_script c1 = []"
    using assms by (simp_all add: c1_def fd_write_def Let_def wire_def)
  define c2 where "c2 = snd (snd (fd_read c1 2048))"
  have r: "fd_read c1 2048 = (26, ''ERR Failed to remove UUID\<newline>'', c2)"
    using c1 by (simp add: c2_def fd_read_def Let_def)
  have "removeUUID_reply c1 0 []
          = (Inl (RemoteError ''removeUUID failed:  Failed to remove UUID''), c2)"
    using r by (subst removeUUID_reply.simps) (simp add: getReplies_ERR rxReply_ERR)
  with w show ?thesis by (simp add: ETDProxy_removeUUID_def)
qed

text \<open>
  C1 (as amended). Asked to remove its own UUID when no record exists, the local server
  returns false and leaves the registry alone. The proxy does not: the wrapper answers the
  proxy's \<^verbatim>\<open>remove-uuid\<close> line with \<^verbatim>\<open>ERR Failed to remove UUID\<close>, and the proxy,
  reading that reply, raises an error. \<^verbatim>\<open>ETDProxy::removeUUID\<close> returns true or raises;
  on no connection and for no UUID does it return false.
\<close>

theorem removeUUID_absent:
  assumes "map_find (transfers st) m_uuid = None"
    and "m_uuid \<noteq> []" "\<forall>c \<in> set m_uuid. \<not> isspace c"
  shows "removeUUID m_uuid st m_uuid = Some (Inr False, st)
       \<and> wrapper_remove_uuid what m_uuid st (''remove-uuid '' @ m_uuid)
           = Some ([''ERR Failed to remove UUID''], st)
       \<and> (\<forall>conn. drop (offset conn) (contents conn) = wire [''ERR Failed to remove UUID'']
               \<and> rd_script conn = [] \<and> wr_script conn = []
             \<longrightarrow> fst (ETDProxy_removeUUID conn m_uuid)
                   = Inl (RemoteError ''removeUUID failed:  Failed to remove UUID''))
       \<and> (\<forall>conn u. fst (ETDProxy_removeUUID conn u) \<noteq> Inr False)"
  using removeUUID_absent_local [OF assms(1)] wrapper_remove_uuid_absent [OF assms]
        ETDProxy_removeUUID_ERR ETDProxy_removeUUID_not_False
  by blast

theorem removeUUID_absent_witness:
  "map_find (transfers empty_state) ''u1'' = None
   \<and> removeUUID ''u1'' empty_state ''u1'' = Some (Inr False, empty_state)
   \<and> wrapper_remove_uuid (\<lambda>e. []) ''u1'' empty_state ''remove-uuid u1''
       = Some ([''ERR Failed to remove UUID''], empty_state)
   \<and> fst (ETDProxy_removeUUID (example_conn\<lparr>contents := ''ERR Failed to remove UUID\<newline>''\<rparr>) ''u1'')
       = Inl (RemoteError ''removeUUID failed:  Failed to remove UUID'')"
proof -
  have h1: "map_find (transfers empty_state) ''u1'' = None"
    by (simp add: map_find_def empty_state_def)
  have h2: "''u1'' \<noteq> []" "\<forall>c \<in> set ''u1''. \<not> isspace c" by (simp_all add: isspace_def)
  have c: "drop (offset (example_conn\<lparr>contents := ''ERR Failed to remove UUID\<newline>''\<rparr>))
                (contents (example_conn\<lparr>contents := ''ERR Failed to remove UUID\<newline>''\<rparr>))
             = wire [''ERR Failed to remove UUID'']
           \<and> rd_script (example_conn\<lparr>contents := ''ERR Failed to remove UUID\<newline>''\<rparr>) = []
           \<and> wr_script (example_conn\<lparr>contents := ''ERR Failed to remove UUID\<newline>''\<rparr>) = []"
    by (simp add: example_conn_def wire_def)
  from removeUUID_absent [OF h1 h2, of "\<lambda>e. []"] h1 c show ?thesis by simp
qed

text \<open>
  The claim C1 as written fails: with no record for \<^verbatim>\<open>u1\<close> the wrapper's reply is the
  \<^verbatim>\<open>ERR\<close> line, on which the proxy raises an error instead of returning false.
\<close>

theorem removeUUID_absent_counterexample:
  "map_find (transfers empty_state) ''u1'' = None
   \<and> wrapper_remove_uuid (\<lambda>e. []) ''u1'' empty_state ''remove-uuid u1''
       = Some ([''ERR Failed to remove UUID''], empty_state)
   \<and> fst (ETDProxy_removeUUID (example_conn\<lparr>contents := wire [''ERR Failed to remove UUID'']\<rparr>) ''u1'')
       = Inl (RemoteError ''removeUUID failed:  Failed to remove UUID'')"
  using wrapper_remove_uuid_absent [of empty_state "''u1''" "\<lambda>e. []"]
        ETDProxy_removeUUID_ERR
          [of "example_conn\<lparr>contents := wire [''ERR Failed to remove UUID'']\<rparr>" "''u1''"]
  by (simp add: map_find_def empty_state_def isspace_def example_conn_def)

lemma show_int_chars:
  "show_int r \<noteq> [] \<and> (\<forall>c \<in> set (show_int r). \<not> is_nl c \<and> \<not> isspace c)"
  using show_nat_digits [of "nat r"] show_nat_digits [of "nat (- r)"] isdigit_props
  by (auto simp: show_int_def is_nl_def isspace_def)

lemma rxRemain_show_int: "rxRemain (''Remain:'' @ show_int r) = Some (show_int r)"
proof (cases "r < 0")
  case True
  then show ?thesis
    using show_nat_digits [of "nat (- r)"]
    by (simp add: rxRemain_def Let_def tolower_def show_int_def)
next
  case False
  have "show_nat (nat r) \<noteq> []" and dg: "\<forall>c \<in> set (show_nat (nat r)). isdigit c"
    using show_nat_digits [of "nat r"] by simp_all
  then have "hd (show_nat (nat r)) \<noteq> CHR ''-''"
    using isdigit_props by (cases "show_nat (nat r)") auto
  then show ?thesis
    using False show_nat_digits [of "nat r"]
    by (simp add: rxRemain_def Let_def tolower_def show_int_def)
qed

lemma rxUUID_Remain: "rxUUID (''Remain:'' @ v) = None"
  by (simp add: rxUUID_def tolower_def)

lemma rxUUID_line:
  assumes "u \<noteq> []" "\<forall>c \<in> set u. \<not> isspace c"
  shows "rxUUID (''UUID:'' @ u) = Some u"
  using assms by (simp add: rxUUID_def tolower_def)

lemma rx_OK:
  "rxUUID ''OK'' = None \<and> rxRemain ''OK'' = None \<and> rxReply ''OK'' = Some (''OK'', [], [])"
  by (simp add: rxUUID_def rxRemain_def rxReply_def tolower_def Let_def)

lemma requestFileRead_lines_reply:
  assumes "- (2 ^ 63) \<le> r" "r < 2 ^ 63" "u \<noteq> []" "\<forall>c \<in> set u. \<not> isspace c"
    and "\<not> finished L" "remain L = None" "curUUID L = None"
  shows "requestFileRead_lines [''Remain:'' @ show_int r, ''UUID:'' @ u, ''OK''] L
           = Inr (L\<lparr>remain := Some r, curUUID := Some u, status_s := ''OK'', info := [],
                    finished := True\<rparr>, [])"
proof -
  define l1 where "l1 = ''Remain:'' @ show_int r"
  define l2 where "l2 = ''UUID:'' @ u"
  have f1: "rxUUID l1 = None" "rxRemain l1 = Some (show_int r)"
    unfolding l1_def by (rule rxUUID_Remain, rule rxRemain_show_int)
  have f2: "string2off_t (show_int r) = Inr r"
    using assms(1,2) by (rule string2off_t_show_int)
  have f3: "rxUUID l2 = Some u" unfolding l2_def using assms(3,4) by (rule rxUUID_line)
  have "requestFileRead_lines [l1, l2, ''OK''] L
           = Inr (L\<lparr>remain := Some r, curUUID := Some u, status_s := ''OK'', info := [],
                    finished := True\<rparr>, [])"
    using assms(5-7) rx_OK by (simp add: f1 f2 f3)
  then show ?thesis by (simp only: l1_def l2_def)
qed

lemma getReplies_reply:
  assumes "u \<noteq> []" "\<forall>c \<in> set u. \<not> isspace c"
  shows "getReplies (wire [''Remain:'' @ show_int r, ''UUID:'' @ u, ''OK''])
           = ([''Remain:'' @ show_int r, ''UUID:'' @ u, ''OK''],
              length (wire [''Remain:'' @ show_int r, ''UUID:'' @ u, ''OK'']))"
proof -
  have nl: "\<forall>c \<in> set u. \<not> is_nl c" using assms by (auto simp: is_nl_def isspace_def)
  have g3: "getReplies (''OK'' @ CHR 0x0A # []) = ([''OK''], 3)"
    using getReplies_line [of "''OK''" "[]"] by (simp add: is_nl_def getReplies_Nil)
  have g2: "getReplies ((''UUID:'' @ u) @ CHR 0x0A # (''OK'' @ CHR 0x0A # []))
              = ([''UUID:'' @ u, ''OK''], length (''UUID:'' @ u) + 1 + 3)"
    using getReplies_line [of "''UUID:'' @ u" "''OK'' @ [CHR 0x0A]"] nl g3
    by (simp add: is_nl_def)
  have g1: "getReplies ((''Remain:'' @ show_int r) @ CHR 0x0A
                 # ((''UUID:'' @ u) @ CHR 0x0A # (''OK'' @ CHR 0x0A # [])))
              = ([''Remain:'' @ show_int r, ''UUID:'' @ u, ''OK''],
                 length (''Remain:'' @ show_int r) + 1 + (length (''UUID:'' @ u) + 1 + 3))"
    using getReplies_line [of "''Remain:'' @ show_int r"
                              "(''UUID:'' @ u) @ CHR 0x0A # (''OK'' @ CHR 0x0A # [])"]
          show_int_chars [of r]
    by (simp only: g2 fst_conv snd_conv) (simp add: is_nl_def)
  have w: "wire [''Remain:'' @ show_int r, ''UUID:'' @ u, ''OK'']
             = (''Remain:'' @ show_int r) @ CHR 0x0A
                 # ((''UUID:'' @ u) @ CHR 0x0A # (''OK'' @ CHR 0x0A # []))"
    by (simp add: wire_def)
  show ?thesis unfolding w g1 by simp
qed

lemma ETDProxy_requestFileRead_reply:
  assumes "- (2 ^ 63) \<le> r" "r < 2 ^ 63" "u \<noteq> []" "\<forall>c \<in> set u. \<not> isspace c"
    and "drop (offset conn) (contents conn) = wire (wrapper_read_file_replies what (Inr (u, r)))"
    and "length (wire (wrapper_read_file_replies what (Inr (u, r)))) \<le> 2048"
    and "rd_script conn = []" "wr_script conn = []"
  shows "fst (ETDProxy_requestFileRead conn file ah) = Inr (u, r)"
proof -
  define reply where "reply = wire [''Remain:'' @ show_int r, ''UUID:'' @ u, ''OK'']"
  define msg where "msg = ''read-file '' @ show_int ah @ '' '' @ file @ [CHR 0x0A]"
  define L0 where "L0 = \<lparr>finished = False, status_s = [], info = [], remain = None, curUUID = None\<rparr>"
  define L1 where "L1 = L0\<lparr>remain := Some r, curUUID := Some u, status_s := ''OK'', info := [],
                    finished := True\<rparr>"
  have rep: "wire (wrapper_read_file_replies what (Inr (u, r))) = reply"
    by (simp add: wrapper_read_file_replies_def reply_def)
  have len: "0 < length reply" "length reply \<le> 2048"
    using assms(6) by (simp_all add: rep) (simp add: reply_def wire_def)
  define c1 where "c1 = snd (fd_write conn msg)"
  have w: "fd_write conn msg = (int (length msg), c1)"
    using assms by (simp add: c1_def fd_write_def Let_def)
  have c1: "drop (offset c1) (contents c1) = reply" "rd_script c1 = []"
    using assms by (simp_all add: c1_def fd_write_def Let_def rep)
  define c2 where "c2 = snd (snd (fd_read c1 2048))"
  have r: "fd_read c1 2048 = (int (length reply), reply, c2)"
    using c1 len by (simp add: c2_def fd_read_def Let_def min_def)
  define ls where "ls = [''Remain:'' @ show_int r, ''UUID:'' @ u, ''OK'']"
  have gl: "getReplies reply = (ls, length reply)"
    unfolding reply_def ls_def using assms(3,4) by (rule getReplies_reply)
  have ln: "requestFileRead_lines ls L0 = Inr (L1, [])"
    unfolding L1_def ls_def
    using assms(1-4) by (rule requestFileRead_lines_reply) (simp_all add: L0_def)
  have fin: "requestFileRead_reply c2 0 [] L1 = (Inr (L1, 0), c2)"
    by (subst requestFileRead_reply.simps) (simp add: L1_def)
  have main: "requestFileRead_reply c1 0 [] L0 = (Inr (L1, 0), c2)"
    using len
    by (subst requestFileRead_reply.simps) (simp add: r gl ln fin, simp add: L0_def)
  have fields: "status_s L1 = ''OK''" "remain L1 = Some r" "curUUID L1 = Some u"
    by (simp_all add: L1_def)
  show ?thesis
    unfolding ETDProxy_requestFileRead_def msg_def [symmetric] L0_def [symmetric]
    by (simp only: w main prod.case sum.case fields option.case simp_thms if_False fst_conv)
qed

lemma fd_lseek_set_ok:
  "fst (fd_lseek (snd (fd_lseek f 0 SEEK_END)) a SEEK_SET) \<noteq> - 1
     \<longleftrightarrow> seekable f \<and> 0 \<le> a \<and> a \<le> int (max (length (contents f)) (max_offset f))"
  by (auto simp: fd_lseek_def Let_def)

lemma requestFileRead_ok:
  assumes "map_find (transfers st) m_uuid = None"
    and "case find_path (transfers st) (normalize_path pf p) of
           None \<Rightarrow> True | Some kv \<Rightarrow> openMode (snd kv) = Read"
    and "etdc_file pf (normalize_path pf p) (openmode_int pf Read OR O_LARGEFILE pf) None = Some f"
    and "fst (fd_lseek (snd (fd_lseek f 0 SEEK_END)) alreadyhave SEEK_SET) \<noteq> - 1"
  shows "\<exists>st'. requestFileRead pf m_uuid st p alreadyhave
                 = (Inr (m_uuid, int (length (contents f)) - alreadyhave), st')"
proof -
  from assms(4) have "seekable f" "0 \<le> alreadyhave"
      "alreadyhave \<le> int (max (length (contents f)) (max_offset f))"
    by (simp_all add: fd_lseek_set_ok)
  with assms(1-3) show ?thesis
    by (simp add: requestFileRead_def Let_def fd_lseek_def map_emplace_def)
qed

text \<open>
  The seek can fail beyond the end of the file: on the example file system a seek to
  \<open>2^44\<close> is refused, and \<^verbatim>\<open>requestFileRead\<close> fails with it.
\<close>

lemma requestFileRead_seek_refused:
  "fst (fd_lseek (snd (fd_lseek example_file 0 SEEK_END)) (2 ^ 44) SEEK_SET) = - 1
   \<and> requestFileRead example_pf ''u1'' empty_state ''/data/f'' (2 ^ 44)
       = (Inl SeekFailed, empty_state)"
  by (simp add: requestFileRead_def example_pf_def empty_state_def example_file_def
                map_find_def find_path_def fd_lseek_def Let_def)

text \<open>
  C10. \<^verbatim>\<open>requestFileRead\<close> does not look at where \<open>alreadyhave\<close> lies in the file.
  With the service not yet registered, the path free or held by a reader, the file
  opening, \<open>alreadyhave\<close> (an \<^verbatim>\<open>off_t\<close>) beyond the file's size and the seek to
  \<open>alreadyhave\<close> succeeding (it returns something else than \<^verbatim>\<open>-1\<close>), the call
  succeeds and returns a remaining count below zero. The proxy's \<^verbatim>\<open>rxRemain\<close>
  matches the \<^verbatim>\<open>Remain:\<close> line of that count, and the proxy, reading the wrapper's
  three reply lines for the result, returns the same pair.
\<close>

theorem requestFileRead_beyond_eof:
  assumes "map_find (transfers st) m_uuid = None"
    and "case find_path (transfers st) (normalize_path pf p) of
           None \<Rightarrow> True | Some kv \<Rightarrow> openMode (snd kv) = Read"
    and "etdc_file pf (normalize_path pf p) (openmode_int pf Read OR O_LARGEFILE pf) None = Some f"
    and "int (length (contents f)) < alreadyhave"
    and "fst (fd_lseek (snd (fd_lseek f 0 SEEK_END)) alreadyhave SEEK_SET) \<noteq> - 1"
    and "alreadyhave < 2 ^ 63"
    and "m_uuid \<noteq> []" and "\<forall>c \<in> set m_uuid. \<not> isspace c"
  shows "(\<exists>st'. requestFileRead pf m_uuid st p alreadyhave
                 = (Inr (m_uuid, int (length (contents f)) - alreadyhave), st'))
       \<and> int (length (contents f)) - alreadyhave < 0
       \<and> rxRemain (''Remain:'' @ show_int (int (length (contents f)) - alreadyhave))
           = Some (show_int (int (length (contents f)) - alreadyhave))
       \<and> (\<forall>conn file ah.
             drop (offset conn) (contents conn)
               = wire (wrapper_read_file_replies what
                         (Inr (m_uuid, int (length (contents f)) - alreadyhave)))
             \<and> length (wire (wrapper_read_file_replies what
                         (Inr (m_uuid, int (length (contents f)) - alreadyhave)))) \<le> 2048
             \<and> rd_script conn = [] \<and> wr_script conn = []
           \<longrightarrow> fst (ETDProxy_requestFileRead conn file ah)
                 = Inr (m_uuid, int (length (contents f)) - alreadyhave))"
proof -
  have r1: "- (2 ^ 63) \<le> int (length (contents f)) - alreadyhave" using assms(6) by simp
  have r2: "int (length (contents f)) - alreadyhave < 2 ^ 63" using assms(4) by simp
  have neg: "int (length (contents f)) - alreadyhave < 0" using assms(4) by simp
  show ?thesis
    using requestFileRead_ok [OF assms(1-3,5)] neg
          rxRemain_show_int [of "int (length (contents f)) - alreadyhave"]
          ETDProxy_requestFileRead_reply [OF r1 r2 assms(7,8)]
    by blast
qed


theorem requestFileRead_beyond_eof_witness:
  "fst (fd_lseek (snd (fd_lseek example_file 0 SEEK_END)) 16 SEEK_SET) \<noteq> - 1
   \<and> fst (requestFileRead example_pf ''u1'' empty_state ''/data/f'' 16) = Inr (''u1'', - 6)
   \<and> rxRemain ''Remain:-6'' = Some ''-6''
   \<and> fst (ETDProxy_requestFileRead
            (example_conn\<lparr>contents := ''Remain:-6\<newline>UUID:u1\<newline>OK\<newline>''\<rparr>) ''/data/f'' 16)
       = Inr (''u1'', - 6)"
proof -
  have h1: "map_find (transfers empty_state) ''u1'' = None"
    by (simp add: map_find_def empty_state_def)
  have h2: "case find_path (transfers empty_state) (normalize_path example_pf ''/data/f'') of
           None \<Rightarrow> True | Some kv \<Rightarrow> openMode (snd kv) = Read"
    by (simp add: find_path_def empty_state_def)
  have h3: "etdc_file example_pf (normalize_path example_pf ''/data/f'')
              (openmode_int example_pf Read OR O_LARGEFILE example_pf) None = Some example_file"
    by (simp add: example_pf_def)
  have h4: "int (length (contents example_file)) < 16" by (simp add: example_file_def)
  have h5: "fst (fd_lseek (snd (fd_lseek example_file 0 SEEK_END)) 16 SEEK_SET) \<noteq> - 1"
    by (simp add: fd_lseek_def example_file_def Let_def)
  have h6: "(16::int) < 2 ^ 63" by simp
  have h7: "''u1'' \<noteq> []" "\<forall>c \<in> set ''u1''. \<not> isspace c" by (simp_all add: isspace_def)
  have v: "int (length (contents example_file)) - 16 = - 6" by (simp add: example_file_def)
  have sh: "show_int (- 6) = ''-6''"
    by (simp add: show_int_def show_nat.simps digit_char_def)
  have w: "wire (wrapper_read_file_replies (\<lambda>e. []) (Inr (''u1'', - 6)))
             = ''Remain:-6\<newline>UUID:u1\<newline>OK\<newline>''"
    by (simp add: wire_def wrapper_read_file_replies_def sh)
  note t = requestFileRead_beyond_eof [OF h1 h2 h3 h4 h5 h6 h7, where what = "\<lambda>e. []",
             unfolded v w sh]
  have c: "drop (offset (example_conn\<lparr>contents := ''Remain:-6\<newline>UUID:u1\<newline>OK\<newline>''\<rparr>))
                (contents (example_conn\<lparr>contents := ''Remain:-6\<newline>UUID:u1\<newline>OK\<newline>''\<rparr>))
             = ''Remain:-6\<newline>UUID:u1\<newline>OK\<newline>''
           \<and> length ''Remain:-6\<newline>UUID:u1\<newline>OK\<newline>'' \<le> 2048
           \<and> rd_script (example_conn\<lparr>contents := ''Remain:-6\<newline>UUID:u1\<newline>OK\<newline>''\<rparr>) = []
           \<and> wr_script (example_conn\<lparr>contents := ''Remain:-6\<newline>UUID:u1\<newline>OK\<newline>''\<rparr>) = []"
    by (simp add: example_conn_def)
  from t c h5 show ?thesis by (auto simp del: One_nat_def)
qed

subsection \<open>Address designators\<close>










end
